theory Spec2Isabelle
  imports Main "HOL-Library.Word"
begin

section \<open>The clarity cpufreq governor (drivers/cpufreq/cpufreq_clarity.c)\<close>

text \<open>
  A shallow embedding of the governor: its tunables and their sysfs write accessors, the
  per-CPU bookkeeping, the decision made every sampling period, the power-suspend hooks
  and the live change of the sampling period. C \<^verbatim>\<open>unsigned int\<close> is \<open>32 word\<close> (sums,
  differences and products wrap), \<^verbatim>\<open>cputime64_t\<close> and \<^verbatim>\<open>u64\<close> are \<open>64 word\<close>, and
  \<^verbatim>\<open>unsigned long\<close> is 32 bits wide, as on the 32-bit ARM target of this kernel tree.
\<close>

type_synonym u32 = "32 word"
type_synonym u64 = "64 word"
type_synonym ulong = "32 word"

subsection \<open>Data\<close>

text \<open>\<^verbatim>\<open>CPUFREQ_RELATION_L\<close>: lowest frequency at or above the target;
  \<^verbatim>\<open>CPUFREQ_RELATION_H\<close>: highest frequency at or below the target.\<close>

datatype relation = CPUFREQ_RELATION_L | CPUFREQ_RELATION_H

text \<open>\<^verbatim>\<open>struct dbs_tuners\<close>, and its initialiser \<^verbatim>\<open>dbs_tuners_ins\<close>.\<close>

record dbs_tuners =
  sampling_rate :: u32
  up_threshold :: u32
  down_threshold :: u32
  ignore_nice :: u32
  freq_middle :: u32
  freq_step_up :: u32
  freq_step_down :: u32
  freq_max_suspend :: u32
  freq_awake :: u32
  io_is_busy :: int

definition dbs_tuners_ins :: dbs_tuners where
  "dbs_tuners_ins =
     \<lparr> sampling_rate = 40000, up_threshold = 70, down_threshold = 30, ignore_nice = 0,
       freq_middle = 787200, freq_step_up = 5, freq_step_down = 5,
       freq_max_suspend = 787200, freq_awake = 998400, io_is_busy = 0 \<rparr>"

text \<open>The fields of \<^verbatim>\<open>struct cpufreq_policy\<close> that the governor reads or writes:
  \<^verbatim>\<open>cpus\<close>, \<^verbatim>\<open>cpu\<close>, \<^verbatim>\<open>min\<close>, \<^verbatim>\<open>max\<close>, \<^verbatim>\<open>cur\<close> and \<^verbatim>\<open>cpuinfo.max_freq\<close>.\<close>

record cpufreq_policy =
  policy_cpus :: "nat list"
  policy_cpu :: nat
  policy_min :: u32
  policy_max :: u32
  policy_cur :: u32
  cpuinfo_max_freq :: u32

text \<open>\<^verbatim>\<open>struct delayed_work\<close>: whether the work is pending, and \<^verbatim>\<open>timer.expires\<close>.\<close>

record delayed_work =
  work_pending :: bool
  timer_expires :: ulong

text \<open>\<^verbatim>\<open>struct cpu_dbs_info_s\<close>. The pointer \<^verbatim>\<open>cur_policy\<close> is the address of a policy
  object in a store of policies, so that two CPUs may share one policy.\<close>

record cpu_dbs_info_s =
  prev_cpu_idle :: u64
  prev_cpu_wall :: u64
  prev_cpu_nice :: u64
  cur_policy :: nat
  work :: delayed_work
  down_skip :: u32
  requested_freq :: u32
  cpu_max_freq :: u32
  cpu_maxcur_freq :: u32
  cpu :: nat
  enable :: bool

text \<open>What the utilisation source reports for one CPU when it is sampled: the result of
  \<^verbatim>\<open>get_cpu_idle_time(j, &cur_wall_time)\<close> and \<^verbatim>\<open>kcpustat_cpu(j).cpustat[CPUTIME_NICE]\<close>.\<close>

record cpu_sample =
  cur_idle_time :: u64
  cur_wall_time :: u64
  cpustat_nice :: u64

text \<open>A sysfs write returns \<^verbatim>\<open>count\<close> or \<^verbatim>\<open>-EINVAL\<close>; dereferencing a NULL policy is
  a fault of its own.\<close>

datatype error = EINVAL | NULL_DEREF

type_synonym ssize_t = "error + nat"

subsection \<open>The sysfs write accessors\<close>

text \<open>
  Each accessor starts with \<^verbatim>\<open>ret = sscanf(buf, "%u", &input)\<close>. The parser is kernel code
  outside this file, so an accessor takes its outcome: \<open>None\<close> when \<^verbatim>\<open>ret != 1\<close>,
  \<open>Some input\<close> otherwise. It returns the value handed back to the caller together
  with the tunables as they are afterwards.
\<close>

definition store_up_threshold :: "dbs_tuners \<Rightarrow> u32 option \<Rightarrow> nat \<Rightarrow> ssize_t \<times> dbs_tuners" where
  "store_up_threshold t buf count =
     (case buf of
        None \<Rightarrow> (Inl EINVAL, t)
      | Some input \<Rightarrow>
          if input > 100 \<or> input \<le> down_threshold t then (Inl EINVAL, t)
          else (Inr count, t\<lparr>up_threshold := input\<rparr>))"

definition store_down_threshold :: "dbs_tuners \<Rightarrow> u32 option \<Rightarrow> nat \<Rightarrow> ssize_t \<times> dbs_tuners" where
  "store_down_threshold t buf count =
     (case buf of
        None \<Rightarrow> (Inl EINVAL, t)
      | Some input \<Rightarrow>
          if input < 11 \<or> input > 100 \<or> input \<ge> up_threshold t then (Inl EINVAL, t)
          else (Inr count, t\<lparr>down_threshold := input\<rparr>))"

definition store_freq_middle :: "dbs_tuners \<Rightarrow> u32 option \<Rightarrow> nat \<Rightarrow> ssize_t \<times> dbs_tuners" where
  "store_freq_middle t buf count =
     (case buf of
        None \<Rightarrow> (Inl EINVAL, t)
      | Some input \<Rightarrow> (Inr count, t\<lparr>freq_middle := input\<rparr>))"

definition store_freq_step_up :: "dbs_tuners \<Rightarrow> u32 option \<Rightarrow> nat \<Rightarrow> ssize_t \<times> dbs_tuners" where
  "store_freq_step_up t buf count =
     (case buf of
        None \<Rightarrow> (Inl EINVAL, t)
      | Some input \<Rightarrow>
          (let input = (if input > 100 then 100 else input)
           in (Inr count, t\<lparr>freq_step_up := input\<rparr>)))"

definition store_freq_step_down :: "dbs_tuners \<Rightarrow> u32 option \<Rightarrow> nat \<Rightarrow> ssize_t \<times> dbs_tuners" where
  "store_freq_step_down t buf count =
     (case buf of
        None \<Rightarrow> (Inl EINVAL, t)
      | Some input \<Rightarrow>
          (let input = (if input > 100 then 100 else input)
           in (Inr count, t\<lparr>freq_step_down := input\<rparr>)))"

definition store_io_is_busy :: "dbs_tuners \<Rightarrow> u32 option \<Rightarrow> nat \<Rightarrow> ssize_t \<times> dbs_tuners" where
  "store_io_is_busy t buf count =
     (case buf of
        None \<Rightarrow> (Inl EINVAL, t)
      | Some input \<Rightarrow>
          if input > 1 then (Inl EINVAL, t)
          else (Inr count, t\<lparr>io_is_busy := uint input\<rparr>))"

text \<open>
  \<^verbatim>\<open>store_freq_max_suspend\<close> and \<^verbatim>\<open>store_freq_awake\<close> read \<^verbatim>\<open>policy->max\<close> of
  \<^verbatim>\<open>cpufreq_cpu_get(0)\<close> without a NULL check; the \<^verbatim>\<open>||\<close> chain reaches the dereference
  only when the parse succeeded. The test \<^verbatim>\<open>input < 0\<close> on an unsigned value never holds.
\<close>

definition store_freq_max_suspend ::
  "dbs_tuners \<Rightarrow> cpufreq_policy option \<Rightarrow> u32 option \<Rightarrow> nat \<Rightarrow> ssize_t \<times> dbs_tuners" where
  "store_freq_max_suspend t policy buf count =
     (case buf of
        None \<Rightarrow> (Inl EINVAL, t)
      | Some input \<Rightarrow>
          (case policy of
             None \<Rightarrow> (Inl NULL_DEREF, t)
           | Some p \<Rightarrow>
               if input > policy_max p \<or> input < freq_middle t then (Inl EINVAL, t)
               else (Inr count, t\<lparr>freq_max_suspend := input\<rparr>)))"

definition store_freq_awake ::
  "dbs_tuners \<Rightarrow> cpufreq_policy option \<Rightarrow> u32 option \<Rightarrow> nat \<Rightarrow> ssize_t \<times> dbs_tuners" where
  "store_freq_awake t policy buf count =
     (case buf of
        None \<Rightarrow> (Inl EINVAL, t)
      | Some input \<Rightarrow>
          (case policy of
             None \<Rightarrow> (Inl NULL_DEREF, t)
           | Some p \<Rightarrow>
               if input > policy_max p then (Inl EINVAL, t)
               else (Inr count, t\<lparr>freq_awake := input\<rparr>)))"

text \<open>
  \<^verbatim>\<open>store_ignore_nice_load\<close> also resynchronises the accounting baseline of every online
  CPU \<open>j\<close> from a fresh reading \<open>samples j\<close>.
\<close>

fun reevaluate_prev ::
  "u32 \<Rightarrow> (nat \<Rightarrow> cpu_sample) \<Rightarrow> nat list \<Rightarrow> (nat \<Rightarrow> cpu_dbs_info_s) \<Rightarrow> nat \<Rightarrow> cpu_dbs_info_s" where
  "reevaluate_prev ign samples [] infos = infos"
| "reevaluate_prev ign samples (j # js) infos =
     (let d = infos j;
          d = d\<lparr>prev_cpu_idle := cur_idle_time (samples j),
                prev_cpu_wall := cur_wall_time (samples j)\<rparr>;
          d = (if ign \<noteq> 0 then d\<lparr>prev_cpu_nice := cpustat_nice (samples j)\<rparr> else d)
      in reevaluate_prev ign samples js (infos(j := d)))"

definition store_ignore_nice_load ::
  "dbs_tuners \<Rightarrow> (nat \<Rightarrow> cpu_dbs_info_s) \<Rightarrow> nat list \<Rightarrow> (nat \<Rightarrow> cpu_sample) \<Rightarrow> u32 option \<Rightarrow> nat
     \<Rightarrow> ssize_t \<times> dbs_tuners \<times> (nat \<Rightarrow> cpu_dbs_info_s)" where
  "store_ignore_nice_load t infos online samples buf count =
     (case buf of
        None \<Rightarrow> (Inl EINVAL, t, infos)
      | Some input \<Rightarrow>
          (let input = (if input > 1 then 1 else input)
           in if input = ignore_nice t then (Inr count, t, infos)
              else (Inr count, t\<lparr>ignore_nice := input\<rparr>,
                    reevaluate_prev input samples online infos)))"

subsection \<open>Sampling and the decision (\<^verbatim>\<open>dbs_check_cpu\<close>)\<close>

text \<open>
  The body of the loop \<^verbatim>\<open>for_each_cpu(j, policy->cpus)\<close> up to its guard: the deltas are
  truncated to \<^verbatim>\<open>unsigned int\<close>, the previous counters are overwritten on the way, and with
  \<^verbatim>\<open>ignore_nice\<close> set the idle delta grows by the nice time. The conversion
  \<^verbatim>\<open>jiffies_to_usecs((unsigned long) cputime64_to_jiffies64(cur_nice))\<close> is made of kernel
  macros outside this file and is the parameter \<open>nice_usecs\<close>. The result is the updated
  entry with \<^verbatim>\<open>wall_time\<close> and \<^verbatim>\<open>idle_time\<close>.
\<close>

definition sample_cpu ::
  "(u64 \<Rightarrow> u32) \<Rightarrow> dbs_tuners \<Rightarrow> cpu_dbs_info_s \<Rightarrow> cpu_sample \<Rightarrow> cpu_dbs_info_s \<times> u32 \<times> u32" where
  "sample_cpu nice_usecs t j_dbs_info s =
     (let wall_time = (ucast (cur_wall_time s - prev_cpu_wall j_dbs_info) :: u32);
          d = j_dbs_info\<lparr>prev_cpu_wall := cur_wall_time s\<rparr>;
          idle_time = (ucast (cur_idle_time s - prev_cpu_idle d) :: u32);
          d = d\<lparr>prev_cpu_idle := cur_idle_time s\<rparr>
      in if ignore_nice t \<noteq> 0
         then (let cur_nice = cpustat_nice s - prev_cpu_nice d
               in (d\<lparr>prev_cpu_nice := cpustat_nice s\<rparr>, wall_time,
                   idle_time + nice_usecs cur_nice))
         else (d, wall_time, idle_time))"

text \<open>The loop itself (``Get Absolute Load''): a CPU whose sample fails the guard
  \<^verbatim>\<open>!wall_time || wall_time < idle_time\<close> is skipped by \<^verbatim>\<open>continue\<close>; the others raise
  \<^verbatim>\<open>max_load\<close>.\<close>

fun get_absolute_load ::
  "(u64 \<Rightarrow> u32) \<Rightarrow> dbs_tuners \<Rightarrow> (nat \<Rightarrow> cpu_sample) \<Rightarrow> nat list
     \<Rightarrow> (nat \<Rightarrow> cpu_dbs_info_s) \<Rightarrow> u32 \<Rightarrow> (nat \<Rightarrow> cpu_dbs_info_s) \<times> u32" where
  "get_absolute_load nice_usecs t samples [] infos max_load = (infos, max_load)"
| "get_absolute_load nice_usecs t samples (j # js) infos max_load =
     (case sample_cpu nice_usecs t (infos j) (samples j) of
        (d, wall_time, idle_time) \<Rightarrow>
          if wall_time = 0 \<or> wall_time < idle_time
          then get_absolute_load nice_usecs t samples js (infos(j := d)) max_load
          else (let load = 100 * (wall_time - idle_time) div wall_time
                in get_absolute_load nice_usecs t samples js (infos(j := d))
                     (if load > max_load then load else max_load)))"

text \<open>The three zones that follow the loop. The result is \<^verbatim>\<open>this_dbs_info\<close> as it is
  left, and the call of \<^verbatim>\<open>__cpufreq_driver_target\<close> if one is made: its target frequency
  and relation.\<close>

definition check_frequency ::
  "dbs_tuners \<Rightarrow> cpufreq_policy \<Rightarrow> cpu_dbs_info_s \<Rightarrow> u32 \<Rightarrow> cpu_dbs_info_s \<times> (u32 \<times> relation) option" where
  "check_frequency t policy this max_load =
     (if max_load > up_threshold t then
        (if freq_step_up t = 0 then (this, None)
         else
           (let this = this\<lparr>down_skip := 0\<rparr>
            in if requested_freq this = policy_max policy then (this, None)
               else
                 (let freq_target = (freq_step_up t * cpuinfo_max_freq policy) div 100;
                      freq_target = (if freq_target = 0 then 5 else freq_target);
                      this = this\<lparr>requested_freq := requested_freq this + freq_target\<rparr>;
                      this = (if requested_freq this > policy_max policy
                              then this\<lparr>requested_freq := policy_max policy\<rparr> else this)
                  in (this, Some (requested_freq this, CPUFREQ_RELATION_L)))))
      else if max_load < down_threshold t then
        (if freq_step_down t = 0 then (this, None)
         else
           (let freq_target = (freq_step_down t * cpuinfo_max_freq policy) div 100;
                this = this\<lparr>requested_freq := requested_freq this - freq_target\<rparr>;
                this = (if requested_freq this < policy_min policy
                        then this\<lparr>requested_freq := policy_min policy\<rparr> else this)
            in if policy_cur policy = policy_min policy then (this, None)
               else (this, Some (requested_freq this, CPUFREQ_RELATION_H))))
      else
        (if policy_cur policy = freq_middle t then (this, None)
         else
           (let this = this\<lparr>requested_freq := freq_middle t\<rparr>;
                this = (if requested_freq this > policy_max policy
                        then this\<lparr>requested_freq := policy_max policy\<rparr>
                        else if requested_freq this < policy_min policy
                        then this\<lparr>requested_freq := policy_min policy\<rparr> else this)
            in (this, Some (requested_freq this, CPUFREQ_RELATION_L)))))"

text \<open>\<^verbatim>\<open>dbs_check_cpu(this_dbs_info)\<close>, with \<^verbatim>\<open>this_dbs_info\<close> the entry \<open>this\<close> of the
  per-CPU array and \<^verbatim>\<open>policy\<close> read through its \<^verbatim>\<open>cur_policy\<close> pointer.\<close>

definition dbs_check_cpu ::
  "(u64 \<Rightarrow> u32) \<Rightarrow> (nat \<Rightarrow> cpu_sample) \<Rightarrow> dbs_tuners \<Rightarrow> (nat \<Rightarrow> cpufreq_policy)
     \<Rightarrow> (nat \<Rightarrow> cpu_dbs_info_s) \<Rightarrow> nat \<Rightarrow> (nat \<Rightarrow> cpu_dbs_info_s) \<times> (u32 \<times> relation) option" where
  "dbs_check_cpu nice_usecs samples t policies infos this =
     (let policy = policies (cur_policy (infos this))
      in case get_absolute_load nice_usecs t samples (policy_cpus policy) infos 0 of
           (infos, max_load) \<Rightarrow>
             (case check_frequency t policy (infos this) max_load of
                (d, req) \<Rightarrow> (infos(this := d), req)))"

text \<open>The load that one cycle acts on.\<close>

definition sampled_load ::
  "(u64 \<Rightarrow> u32) \<Rightarrow> (nat \<Rightarrow> cpu_sample) \<Rightarrow> dbs_tuners \<Rightarrow> (nat \<Rightarrow> cpufreq_policy)
     \<Rightarrow> (nat \<Rightarrow> cpu_dbs_info_s) \<Rightarrow> nat \<Rightarrow> u32" where
  "sampled_load nice_usecs samples t policies infos this =
     snd (get_absolute_load nice_usecs t samples
            (policy_cpus (policies (cur_policy (infos this)))) infos 0)"

text \<open>The per-CPU array as the sampling loop of one cycle leaves it.\<close>

definition sampled_infos ::
  "(u64 \<Rightarrow> u32) \<Rightarrow> (nat \<Rightarrow> cpu_sample) \<Rightarrow> dbs_tuners \<Rightarrow> (nat \<Rightarrow> cpufreq_policy)
     \<Rightarrow> (nat \<Rightarrow> cpu_dbs_info_s) \<Rightarrow> nat \<Rightarrow> nat \<Rightarrow> cpu_dbs_info_s" where
  "sampled_infos nice_usecs samples t policies infos this =
     fst (get_absolute_load nice_usecs t samples
            (policy_cpus (policies (cur_policy (infos this)))) infos 0)"

text \<open>\<^verbatim>\<open>dbs_cpufreq_notifier\<close>, for a transition of CPU \<open>freq_cpu\<close> to \<open>freq_new\<close>.\<close>

definition dbs_cpufreq_notifier ::
  "(nat \<Rightarrow> cpufreq_policy) \<Rightarrow> (nat \<Rightarrow> cpu_dbs_info_s) \<Rightarrow> nat \<Rightarrow> u32 \<Rightarrow> nat \<Rightarrow> cpu_dbs_info_s" where
  "dbs_cpufreq_notifier policies infos freq_cpu freq_new =
     (let this = infos freq_cpu
      in if \<not> enable this then infos
         else
           (let policy = policies (cur_policy this)
            in if requested_freq this > policy_max policy \<or> requested_freq this < policy_min policy
               then infos(freq_cpu := this\<lparr>requested_freq := freq_new\<rparr>)
               else infos))"

subsection \<open>Power suspend and resume\<close>

text \<open>Modelled from the spec: \<^verbatim>\<open>cpufreq_update_policy\<close> is core cpufreq code that is not
  part of this file. The specification has it propagate the new ceiling to the rate
  driver, ``which will itself clamp the current rate down if needed''; the ceiling itself
  is left as the governor set it.\<close>

definition cpufreq_update_policy :: "cpufreq_policy \<Rightarrow> cpufreq_policy" where
  "cpufreq_update_policy p =
     (if policy_cur p > policy_max p then p\<lparr>policy_cur := policy_max p\<rparr> else p)"

text \<open>What the power hooks work on: the flag \<^verbatim>\<open>suspended\<close>, the per-CPU array
  \<^verbatim>\<open>clarity_cpu_dbs_info\<close> and the policy objects by address.\<close>

record governor =
  suspended :: bool
  clarity_cpu_dbs_info :: "nat \<Rightarrow> cpu_dbs_info_s"
  policies :: "nat \<Rightarrow> cpufreq_policy"

text \<open>
  \<^verbatim>\<open>suspend_resume(suspend)\<close> over the online CPUs in the order of
  \<^verbatim>\<open>for_each_online_cpu\<close>. \<open>cpufreq_cpu_get\<close> gives the address of a CPU's policy, \<open>None\<close>
  for NULL, which the source dereferences unchecked: the result \<open>None\<close> is that fault.
  On resume every CPU other than CPU 0 reads the snapshots kept in CPU 0's entry.
\<close>

fun suspend_resume ::
  "bool \<Rightarrow> dbs_tuners \<Rightarrow> (nat \<Rightarrow> nat option) \<Rightarrow> nat list \<Rightarrow> governor \<Rightarrow> governor option" where
  "suspend_resume suspend t cpufreq_cpu_get [] g = Some g"
| "suspend_resume suspend t cpufreq_cpu_get (c # cs) g =
     (case cpufreq_cpu_get c of
        None \<Rightarrow> None
      | Some a \<Rightarrow>
          (if suspend then
             (let infos = clarity_cpu_dbs_info g;
                  policy = policies g a;
                  cpu_info = (infos c)\<lparr>cpu_maxcur_freq := policy_max policy\<rparr>;
                  policy = policy\<lparr>policy_max := freq_max_suspend t\<rparr>;
                  policy = policy\<lparr>cpuinfo_max_freq := freq_max_suspend t\<rparr>
              in suspend_resume suspend t cpufreq_cpu_get cs
                   (g\<lparr>clarity_cpu_dbs_info := infos(c := cpu_info),
                      policies := (policies g)(a := cpufreq_update_policy policy)\<rparr>))
           else
             (let infos = clarity_cpu_dbs_info g;
                  policy = policies g a;
                  cpu_info = (if c \<noteq> 0 then infos 0 else infos c);
                  policy = policy\<lparr>cpuinfo_max_freq := cpu_max_freq cpu_info\<rparr>;
                  policy = policy\<lparr>policy_max := cpu_maxcur_freq cpu_info\<rparr>
              in suspend_resume suspend t cpufreq_cpu_get cs
                   (g\<lparr>policies := (policies g)(a := cpufreq_update_policy policy)\<rparr>))))"

definition clarity_power_suspend ::
  "dbs_tuners \<Rightarrow> (nat \<Rightarrow> nat option) \<Rightarrow> nat list \<Rightarrow> governor \<Rightarrow> governor option" where
  "clarity_power_suspend t cpufreq_cpu_get online g =
     (let g = g\<lparr>suspended := True\<rparr>
      in if freq_max_suspend t = 0 then Some g
         else suspend_resume (suspended g) t cpufreq_cpu_get online g)"

text \<open>\<^verbatim>\<open>clarity_late_resume\<close> also returns the calls of \<^verbatim>\<open>__cpufreq_driver_target\<close> it
  makes, one for each online CPU: the policy address, the target and the relation.\<close>

definition clarity_late_resume ::
  "dbs_tuners \<Rightarrow> (nat \<Rightarrow> nat option) \<Rightarrow> nat list \<Rightarrow> governor
     \<Rightarrow> (governor \<times> (nat \<times> u32 \<times> relation) list) option" where
  "clarity_late_resume t cpufreq_cpu_get online g =
     (let g = g\<lparr>suspended := False\<rparr>
      in if freq_max_suspend t = 0 then Some (g, [])
         else
           (case suspend_resume (suspended g) t cpufreq_cpu_get online g of
              None \<Rightarrow> None
            | Some g \<Rightarrow>
                Some (g, map (\<lambda>c. (cur_policy (clarity_cpu_dbs_info g c), freq_awake t,
                                   CPUFREQ_RELATION_L)) online)))"

subsection \<open>The timer and the live change of the sampling rate\<close>

text \<open>\<^verbatim>\<open>time_before(a, b)\<close> is \<^verbatim>\<open>((long)((a) - (b)) < 0)\<close>.\<close>

definition time_before :: "ulong \<Rightarrow> ulong \<Rightarrow> bool" where
  "time_before a b = (sint (a - b) < 0)"

text \<open>Modelled from the spec: the delayed-work interface of the kernel's workqueues is
  not part of this file. Cancelling removes the pending fire; queueing a work that is not
  pending arms it to fire \<open>delay\<close> jiffies from now, and queueing a pending work changes
  nothing.\<close>

definition cancel_delayed_work_sync :: "delayed_work \<Rightarrow> delayed_work" where
  "cancel_delayed_work_sync w = w\<lparr>work_pending := False\<rparr>"

definition queue_delayed_work_on :: "ulong \<Rightarrow> ulong \<Rightarrow> delayed_work \<Rightarrow> delayed_work" where
  "queue_delayed_work_on jiffies delay w =
     (if work_pending w then w
      else w\<lparr>work_pending := True, timer_expires := jiffies + delay\<rparr>)"

text \<open>
  The loop of \<^verbatim>\<open>update_sampling_rate\<close> over the online CPUs, at one reading \<open>jiffies\<close> of
  the clock. \<open>usecs_to_jiffies\<close> is the kernel's conversion, a parameter. A CPU without a
  policy is skipped; the entry looked at is the one of \<^verbatim>\<open>policy->cpu\<close>.
\<close>

fun resample_online ::
  "(u32 \<Rightarrow> ulong) \<Rightarrow> ulong \<Rightarrow> (nat \<Rightarrow> nat option) \<Rightarrow> (nat \<Rightarrow> cpufreq_policy) \<Rightarrow> u32
     \<Rightarrow> nat list \<Rightarrow> (nat \<Rightarrow> cpu_dbs_info_s) \<Rightarrow> nat \<Rightarrow> cpu_dbs_info_s" where
  "resample_online usecs_to_jiffies jiffies cpufreq_cpu_get pols new_rate [] infos = infos"
| "resample_online usecs_to_jiffies jiffies cpufreq_cpu_get pols new_rate (c # cs) infos =
     (case cpufreq_cpu_get c of
        None \<Rightarrow> resample_online usecs_to_jiffies jiffies cpufreq_cpu_get pols new_rate cs infos
      | Some a \<Rightarrow>
          (let k = policy_cpu (pols a);
               dbs_info = infos k
           in if \<not> work_pending (work dbs_info)
              then resample_online usecs_to_jiffies jiffies cpufreq_cpu_get pols new_rate cs infos
              else
                (let next_sampling = jiffies + usecs_to_jiffies new_rate;
                     appointed_at = timer_expires (work dbs_info)
                 in if time_before next_sampling appointed_at
                    then
                      (let w = cancel_delayed_work_sync (work dbs_info);
                           w = queue_delayed_work_on jiffies (usecs_to_jiffies new_rate) w
                       in resample_online usecs_to_jiffies jiffies cpufreq_cpu_get pols new_rate cs
                            (infos(k := dbs_info\<lparr>work := w\<rparr>)))
                    else resample_online usecs_to_jiffies jiffies cpufreq_cpu_get pols new_rate cs
                           infos)))"

definition update_sampling_rate ::
  "(u32 \<Rightarrow> ulong) \<Rightarrow> ulong \<Rightarrow> (nat \<Rightarrow> nat option) \<Rightarrow> (nat \<Rightarrow> cpufreq_policy) \<Rightarrow> nat list
     \<Rightarrow> u32 \<Rightarrow> dbs_tuners \<Rightarrow> (nat \<Rightarrow> cpu_dbs_info_s) \<Rightarrow> u32
     \<Rightarrow> dbs_tuners \<times> (nat \<Rightarrow> cpu_dbs_info_s)" where
  "update_sampling_rate usecs_to_jiffies jiffies cpufreq_cpu_get pols online min_sampling_rate
       t infos new_rate =
     (let new_rate = max new_rate min_sampling_rate;
          t = t\<lparr>sampling_rate := new_rate\<rparr>
      in (t, resample_online usecs_to_jiffies jiffies cpufreq_cpu_get pols new_rate online infos))"

definition store_sampling_rate ::
  "(u32 \<Rightarrow> ulong) \<Rightarrow> ulong \<Rightarrow> (nat \<Rightarrow> nat option) \<Rightarrow> (nat \<Rightarrow> cpufreq_policy) \<Rightarrow> nat list
     \<Rightarrow> u32 \<Rightarrow> dbs_tuners \<Rightarrow> (nat \<Rightarrow> cpu_dbs_info_s) \<Rightarrow> u32 option \<Rightarrow> nat
     \<Rightarrow> ssize_t \<times> dbs_tuners \<times> (nat \<Rightarrow> cpu_dbs_info_s)" where
  "store_sampling_rate usecs_to_jiffies jiffies cpufreq_cpu_get pols online min_sampling_rate
       t infos buf count =
     (case buf of
        None \<Rightarrow> (Inl EINVAL, t, infos)
      | Some input \<Rightarrow>
          (Inr count,
           update_sampling_rate usecs_to_jiffies jiffies cpufreq_cpu_get pols online
             min_sampling_rate t infos input))"

text \<open>
  \<^verbatim>\<open>do_dbs_timer\<close>: the delay to the next fire is computed from the sampling rate as stored
  at that moment, the cycle runs, and the work is queued again. \<^verbatim>\<open>jiffies % delay\<close> with a
  delay of zero is a division by zero: the result \<open>None\<close>.
\<close>

definition do_dbs_timer ::
  "(u32 \<Rightarrow> ulong) \<Rightarrow> ulong \<Rightarrow> (u64 \<Rightarrow> u32) \<Rightarrow> (nat \<Rightarrow> cpu_sample) \<Rightarrow> dbs_tuners
     \<Rightarrow> (nat \<Rightarrow> cpufreq_policy) \<Rightarrow> (nat \<Rightarrow> cpu_dbs_info_s) \<Rightarrow> nat
     \<Rightarrow> ((nat \<Rightarrow> cpu_dbs_info_s) \<times> (u32 \<times> relation) option) option" where
  "do_dbs_timer usecs_to_jiffies jiffies nice_usecs samples t pols infos this =
     (let delay = usecs_to_jiffies (sampling_rate t)
      in if delay = 0 then None
         else
           (let delay = delay - jiffies mod delay
            in case dbs_check_cpu nice_usecs samples t pols infos this of
                 (infos, req) \<Rightarrow>
                   Some (infos(this := (infos this)
                           \<lparr>work := queue_delayed_work_on jiffies delay (work (infos this))\<rparr>),
                         req)))"

subsection \<open>Configurations reachable through the write accessors\<close>

text \<open>The tunables start as \<^verbatim>\<open>dbs_tuners_ins\<close> is initialised and change only through the
  ten write accessors, whatever their arguments and whatever the state of the rest of the
  system at the time of each write.\<close>

inductive reachable :: "dbs_tuners \<Rightarrow> bool" where
  initial: "reachable dbs_tuners_ins"
| up_threshold_write:
    "reachable t \<Longrightarrow> reachable (snd (store_up_threshold t buf count))"
| down_threshold_write:
    "reachable t \<Longrightarrow> reachable (snd (store_down_threshold t buf count))"
| freq_middle_write:
    "reachable t \<Longrightarrow> reachable (snd (store_freq_middle t buf count))"
| freq_step_up_write:
    "reachable t \<Longrightarrow> reachable (snd (store_freq_step_up t buf count))"
| freq_step_down_write:
    "reachable t \<Longrightarrow> reachable (snd (store_freq_step_down t buf count))"
| io_is_busy_write:
    "reachable t \<Longrightarrow> reachable (snd (store_io_is_busy t buf count))"
| freq_max_suspend_write:
    "reachable t \<Longrightarrow> reachable (snd (store_freq_max_suspend t policy buf count))"
| freq_awake_write:
    "reachable t \<Longrightarrow> reachable (snd (store_freq_awake t policy buf count))"
| ignore_nice_load_write:
    "reachable t \<Longrightarrow>
     reachable (fst (snd (store_ignore_nice_load t infos online samples buf count)))"
| sampling_rate_write:
    "reachable t \<Longrightarrow>
     reachable (fst (snd (store_sampling_rate usecs_to_jiffies jiffies cpufreq_cpu_get pols online
                            min_sampling_rate t infos buf count)))"

text \<open>The constraints on the two thresholds.\<close>

definition threshold_ordered :: "dbs_tuners \<Rightarrow> bool" where
  "threshold_ordered t \<longleftrightarrow>
     down_threshold t < up_threshold t \<and> 11 \<le> down_threshold t \<and> down_threshold t \<le> 100
       \<and> 0 \<le> up_threshold t \<and> up_threshold t \<le> 100"

subsection \<open>A concrete system\<close>

text \<open>The range of the specification's scenarios, \<open>[300000, 1800000]\<close> with a reported
  maximum of 1800000, one CPU owning its policy at address 0, and a tick of 10 ms
  (\<^verbatim>\<open>HZ = 100\<close>) for the conversion of microseconds to jiffies.\<close>

definition example_policy :: cpufreq_policy where
  "example_policy =
     \<lparr> policy_cpus = [0], policy_cpu = 0, policy_min = 300000, policy_max = 1800000,
       policy_cur = 900000, cpuinfo_max_freq = 1800000 \<rparr>"

definition example_info :: cpu_dbs_info_s where
  "example_info =
     \<lparr> prev_cpu_idle = 0, prev_cpu_wall = 0, prev_cpu_nice = 0, cur_policy = 0,
       work = \<lparr> work_pending = True, timer_expires = 1004 \<rparr>,
       down_skip = 0, requested_freq = 900000, cpu_max_freq = 1800000,
       cpu_maxcur_freq = 1800000, cpu = 0, enable = True \<rparr>"

definition example_usecs_to_jiffies :: "u32 \<Rightarrow> ulong" where
  "example_usecs_to_jiffies u = (u + 9999) div 10000"

definition example_cpu_get :: "nat \<Rightarrow> nat option" where
  "example_cpu_get c = (if c = 0 then Some 0 else None)"

definition example_nice_usecs :: "u64 \<Rightarrow> u32" where
  "example_nice_usecs n = ucast n * 10000"

text \<open>The target of the increase zone with the 32-bit product written out on \<open>nat\<close>:
  \<^verbatim>\<open>freq_step_up * policy->cpuinfo.max_freq / 100\<close>, and 5 when that is 0.\<close>

definition increase_target :: "dbs_tuners \<Rightarrow> cpufreq_policy \<Rightarrow> nat" where
  "increase_target t p =
     (let q = (unat (freq_step_up t) * unat (cpuinfo_max_freq p)) mod 2 ^ 32 div 100
      in if q = 0 then 5 else q)"

text \<open>A sample of the concrete system with \<open>100 - idle\<close> percent of load: 100 microseconds
  of wall time since the previous one, \<open>idle\<close> of them idle.\<close>

definition example_sample :: "u64 \<Rightarrow> nat \<Rightarrow> cpu_sample" where
  "example_sample idle c = \<lparr> cur_idle_time = idle, cur_wall_time = 100, cpustat_nice = 0 \<rparr>"

text \<open>The guard of the sampling loop on one CPU's sample: the wall-time delta is zero or
  the idle-time delta exceeds it.\<close>

definition sample_discarded ::
  "(u64 \<Rightarrow> u32) \<Rightarrow> dbs_tuners \<Rightarrow> cpu_dbs_info_s \<Rightarrow> cpu_sample \<Rightarrow> bool" where
  "sample_discarded nice_usecs t d s =
     (case sample_cpu nice_usecs t d s of
        (d', wall_time, idle_time) \<Rightarrow> wall_time = 0 \<or> wall_time < idle_time)"

text \<open>A sample of the concrete system taken with no wall time elapsed.\<close>

definition stale_sample :: "nat \<Rightarrow> cpu_sample" where
  "stale_sample c = \<lparr> cur_idle_time = 0, cur_wall_time = 0, cpustat_nice = 0 \<rparr>"

text \<open>A suspend event followed immediately by a resume event.\<close>

definition suspend_then_resume ::
  "dbs_tuners \<Rightarrow> (nat \<Rightarrow> nat option) \<Rightarrow> nat list \<Rightarrow> governor
     \<Rightarrow> (governor \<times> (nat \<times> u32 \<times> relation) list) option" where
  "suspend_then_resume t cpufreq_cpu_get online g =
     (case clarity_power_suspend t cpufreq_cpu_get online g of
        None \<Rightarrow> None
      | Some g' \<Rightarrow> clarity_late_resume t cpufreq_cpu_get online g')"

text \<open>Two CPUs, each with a policy of its own, at address 0 and at address 1; the
  ceiling of the second has been lowered to 1200000.\<close>

definition two_policies :: governor where
  "two_policies =
     \<lparr> suspended = False,
       clarity_cpu_dbs_info = (\<lambda>c. example_info\<lparr>cur_policy := c, cpu := c\<rparr>),
       policies = (\<lambda>a. if a = 1
                        then example_policy\<lparr>policy_cpus := [1], policy_cpu := 1,
                                            policy_max := 1200000\<rparr>
                        else example_policy) \<rparr>"

text \<open>The entry of the concrete system while its timer function runs: the work is not
  pending.\<close>

definition running_info :: cpu_dbs_info_s where
  "running_info = example_info\<lparr>work := \<lparr> work_pending = False, timer_expires = 1004 \<rparr>\<rparr>"

section \<open>Properties\<close>

subsection \<open>The thresholds\<close>

lemma store_up_threshold_ordered:
  "threshold_ordered t \<Longrightarrow> threshold_ordered (snd (store_up_threshold t buf count))"
  by (auto simp: threshold_ordered_def store_up_threshold_def split: option.splits)

lemma store_down_threshold_ordered:
  "threshold_ordered t \<Longrightarrow> threshold_ordered (snd (store_down_threshold t buf count))"
  by (auto simp: threshold_ordered_def store_down_threshold_def split: option.splits)

lemma threshold_ordered_cong:
  "up_threshold t' = up_threshold t \<Longrightarrow> down_threshold t' = down_threshold t
     \<Longrightarrow> threshold_ordered t' = threshold_ordered t"
  by (simp add: threshold_ordered_def)

lemma other_writes_keep_thresholds:
  "up_threshold (snd (store_freq_middle t buf count)) = up_threshold t"
  "down_threshold (snd (store_freq_middle t buf count)) = down_threshold t"
  "up_threshold (snd (store_freq_step_up t buf count)) = up_threshold t"
  "down_threshold (snd (store_freq_step_up t buf count)) = down_threshold t"
  "up_threshold (snd (store_freq_step_down t buf count)) = up_threshold t"
  "down_threshold (snd (store_freq_step_down t buf count)) = down_threshold t"
  "up_threshold (snd (store_io_is_busy t buf count)) = up_threshold t"
  "down_threshold (snd (store_io_is_busy t buf count)) = down_threshold t"
  "up_threshold (snd (store_freq_max_suspend t policy buf count)) = up_threshold t"
  "down_threshold (snd (store_freq_max_suspend t policy buf count)) = down_threshold t"
  "up_threshold (snd (store_freq_awake t policy buf count)) = up_threshold t"
  "down_threshold (snd (store_freq_awake t policy buf count)) = down_threshold t"
  "up_threshold (fst (snd (store_ignore_nice_load t infos online samples buf count)))
     = up_threshold t"
  "down_threshold (fst (snd (store_ignore_nice_load t infos online samples buf count)))
     = down_threshold t"
  "up_threshold (fst (snd (store_sampling_rate u2j jiffies cpu_get pols online msr t infos
                             buf count))) = up_threshold t"
  "down_threshold (fst (snd (store_sampling_rate u2j jiffies cpu_get pols online msr t infos
                               buf count))) = down_threshold t"
  by (simp_all add: store_freq_middle_def store_freq_step_up_def store_freq_step_down_def
        store_io_is_busy_def store_freq_max_suspend_def store_freq_awake_def
        store_ignore_nice_load_def store_sampling_rate_def update_sampling_rate_def Let_def
        split: option.splits)

lemma reachable_ordered: "reachable t \<Longrightarrow> threshold_ordered t"
proof (induction rule: reachable.induct)
  case initial
  show ?case by (simp add: threshold_ordered_def dbs_tuners_ins_def)
next
  case (up_threshold_write t buf count)
  then show ?case by (simp add: store_up_threshold_ordered)
next
  case (down_threshold_write t buf count)
  then show ?case by (simp add: store_down_threshold_ordered)
qed (simp_all add: other_writes_keep_thresholds cong: threshold_ordered_cong)

lemma store_up_threshold_rejects:
  "threshold_ordered t \<Longrightarrow> \<not> threshold_ordered (t\<lparr>up_threshold := input\<rparr>)
     \<Longrightarrow> store_up_threshold t (Some input) count = (Inl EINVAL, t)"
  by (auto simp: threshold_ordered_def store_up_threshold_def)

lemma store_down_threshold_rejects:
  "threshold_ordered t \<Longrightarrow> \<not> threshold_ordered (t\<lparr>down_threshold := input\<rparr>)
     \<Longrightarrow> store_down_threshold t (Some input) count = (Inl EINVAL, t)"
  by (auto simp: threshold_ordered_def store_down_threshold_def)

text \<open>
  Claim C6. Every configuration reachable through the write accessors has
  \<open>down_threshold < up_threshold\<close>, \<open>11 \<le> down_threshold \<le> 100\<close> and
  \<open>0 \<le> up_threshold \<le> 100\<close>. In such a configuration a write to either threshold whose
  value would break one of these constraints, or that does not parse, returns
  \<^verbatim>\<open>-EINVAL\<close> and leaves the tunables, both thresholds among them, as they were.
\<close>

theorem threshold_ordering_invariant:
  assumes "reachable t"
  shows "(down_threshold t < up_threshold t \<and> 11 \<le> down_threshold t \<and> down_threshold t \<le> 100
            \<and> 0 \<le> up_threshold t \<and> up_threshold t \<le> 100)
       \<and> (\<not> threshold_ordered (t\<lparr>up_threshold := input\<rparr>)
            \<longrightarrow> store_up_threshold t (Some input) count = (Inl EINVAL, t))
       \<and> (\<not> threshold_ordered (t\<lparr>down_threshold := input\<rparr>)
            \<longrightarrow> store_down_threshold t (Some input) count = (Inl EINVAL, t))
       \<and> store_up_threshold t None count = (Inl EINVAL, t)
       \<and> store_down_threshold t None count = (Inl EINVAL, t)"
proof -
  have ord: "threshold_ordered t"
    using assms by (rule reachable_ordered)
  then have "down_threshold t < up_threshold t \<and> 11 \<le> down_threshold t
      \<and> down_threshold t \<le> 100 \<and> 0 \<le> up_threshold t \<and> up_threshold t \<le> 100"
    by (simp add: threshold_ordered_def)
  moreover have "store_up_threshold t None count = (Inl EINVAL, t)"
    by (simp add: store_up_threshold_def)
  moreover have "store_down_threshold t None count = (Inl EINVAL, t)"
    by (simp add: store_down_threshold_def)
  ultimately show ?thesis
    using store_up_threshold_rejects [OF ord] store_down_threshold_rejects [OF ord] by blast
qed

text \<open>The configuration after writing 80 to \<open>up_threshold\<close> in the initial one is
  reachable; there, writing 20 to \<open>up_threshold\<close> or 90 to \<open>down_threshold\<close> is refused.\<close>

theorem threshold_ordering_invariant_witness:
  "reachable (snd (store_up_threshold dbs_tuners_ins (Some 80) 3))
   \<and> up_threshold (snd (store_up_threshold dbs_tuners_ins (Some 80) 3)) = 80
   \<and> down_threshold (snd (store_up_threshold dbs_tuners_ins (Some 80) 3)) = 30
   \<and> \<not> threshold_ordered (snd (store_up_threshold dbs_tuners_ins (Some 80) 3)\<lparr>up_threshold := 20\<rparr>)
   \<and> store_up_threshold (snd (store_up_threshold dbs_tuners_ins (Some 80) 3)) (Some 20) 3
       = (Inl EINVAL, snd (store_up_threshold dbs_tuners_ins (Some 80) 3))
   \<and> \<not> threshold_ordered (snd (store_up_threshold dbs_tuners_ins (Some 80) 3)\<lparr>down_threshold := 90\<rparr>)
   \<and> store_down_threshold (snd (store_up_threshold dbs_tuners_ins (Some 80) 3)) (Some 90) 3
       = (Inl EINVAL, snd (store_up_threshold dbs_tuners_ins (Some 80) 3))"
proof -
  have r: "reachable (snd (store_up_threshold dbs_tuners_ins (Some 80) 3))"
    by (rule reachable.up_threshold_write [OF reachable.initial])
  have a: "\<not> threshold_ordered
             (snd (store_up_threshold dbs_tuners_ins (Some 80) 3)\<lparr>up_threshold := 20\<rparr>)"
    by (simp add: threshold_ordered_def store_up_threshold_def dbs_tuners_ins_def)
  have b: "\<not> threshold_ordered
             (snd (store_up_threshold dbs_tuners_ins (Some 80) 3)\<lparr>down_threshold := 90\<rparr>)"
    by (simp add: threshold_ordered_def store_up_threshold_def dbs_tuners_ins_def)
  have c: "up_threshold (snd (store_up_threshold dbs_tuners_ins (Some 80) 3)) = 80
     \<and> down_threshold (snd (store_up_threshold dbs_tuners_ins (Some 80) 3)) = 30"
    by (simp add: store_up_threshold_def dbs_tuners_ins_def)
  show ?thesis
    using r a b c threshold_ordering_invariant [OF r, of 20 3]
      threshold_ordering_invariant [OF r, of 90 3]
    by blast
qed

subsection \<open>The other write accessors\<close>

text \<open>
  Claim C10. \<^verbatim>\<open>store_freq_middle\<close> accepts every parsed value and stores it as it is, with
  no check against the policy limits or against \<open>freq_max_suspend\<close>, whereas
  \<^verbatim>\<open>store_freq_max_suspend\<close> refuses a value below \<open>freq_middle\<close>. So a write of
  \<open>freq_middle\<close> above the stored \<open>freq_max_suspend\<close> succeeds and leaves
  \<open>freq_max_suspend < freq_middle\<close>: the constraint is enforced by one of the two writers
  only.
\<close>

theorem store_freq_middle_unchecked:
  "store_freq_middle t (Some input) count = (Inr count, t\<lparr>freq_middle := input\<rparr>)
   \<and> (input < freq_middle t
        \<longrightarrow> store_freq_max_suspend t policy (Some input) count
              = (case policy of None \<Rightarrow> (Inl NULL_DEREF, t) | Some p \<Rightarrow> (Inl EINVAL, t)))
   \<and> (freq_max_suspend t < input
        \<longrightarrow> fst (store_freq_middle t (Some input) count) = Inr count
            \<and> freq_max_suspend (snd (store_freq_middle t (Some input) count))
                < freq_middle (snd (store_freq_middle t (Some input) count)))"
  by (simp add: store_freq_middle_def store_freq_max_suspend_def split: option.splits)

text \<open>With the initial tunables: 1000000 is accepted
  as \<open>freq_middle\<close> although \<open>freq_max_suspend\<close> is 787200, and 500000 is refused as
  \<open>freq_max_suspend\<close> because \<open>freq_middle\<close> is 787200.\<close>

theorem store_freq_middle_unchecked_witness:
  "freq_max_suspend dbs_tuners_ins < 1000000
   \<and> store_freq_middle dbs_tuners_ins (Some 1000000) 8
       = (Inr 8, dbs_tuners_ins\<lparr>freq_middle := 1000000\<rparr>)
   \<and> freq_max_suspend (snd (store_freq_middle dbs_tuners_ins (Some 1000000) 8))
       < freq_middle (snd (store_freq_middle dbs_tuners_ins (Some 1000000) 8))
   \<and> 500000 < freq_middle dbs_tuners_ins
   \<and> store_freq_max_suspend dbs_tuners_ins
        (Some example_policy) (Some 500000) 7
       = (Inl EINVAL, dbs_tuners_ins)"
proof -
  have a: "freq_max_suspend dbs_tuners_ins < 1000000"
    by (simp add: dbs_tuners_ins_def)
  have b: "500000 < freq_middle dbs_tuners_ins"
    by (simp add: dbs_tuners_ins_def)
  show ?thesis
    using a b store_freq_middle_unchecked [where t = dbs_tuners_ins and input = 1000000 and count = 8]
      store_freq_middle_unchecked [where t = dbs_tuners_ins and input = 500000 and count = 7
        and policy = "Some example_policy"]
    by simp
qed

lemma malformed_write_rejected:
  "store_up_threshold t None count = (Inl EINVAL, t)"
  "store_down_threshold t None count = (Inl EINVAL, t)"
  "store_freq_middle t None count = (Inl EINVAL, t)"
  "store_freq_step_up t None count = (Inl EINVAL, t)"
  "store_freq_step_down t None count = (Inl EINVAL, t)"
  "store_io_is_busy t None count = (Inl EINVAL, t)"
  "store_freq_max_suspend t policy None count = (Inl EINVAL, t)"
  "store_freq_awake t policy None count = (Inl EINVAL, t)"
  "store_ignore_nice_load t infos online samples None count = (Inl EINVAL, t, infos)"
  "store_sampling_rate u2j jiffies cpu_get pols online msr t infos None count
     = (Inl EINVAL, t, infos)"
  by (simp_all add: store_up_threshold_def store_down_threshold_def store_freq_middle_def
        store_freq_step_up_def store_freq_step_down_def store_io_is_busy_def
        store_freq_max_suspend_def store_freq_awake_def store_ignore_nice_load_def
        store_sampling_rate_def)

lemma out_of_range_write_rejected:
  "input > 100 \<or> input \<le> down_threshold t
     \<Longrightarrow> store_up_threshold t (Some input) count = (Inl EINVAL, t)"
  "input < 11 \<or> input > 100 \<or> input \<ge> up_threshold t
     \<Longrightarrow> store_down_threshold t (Some input) count = (Inl EINVAL, t)"
  "input > 1 \<Longrightarrow> store_io_is_busy t (Some input) count = (Inl EINVAL, t)"
  "input > policy_max p \<or> input < freq_middle t
     \<Longrightarrow> store_freq_max_suspend t (Some p) (Some input) count = (Inl EINVAL, t)"
  "input > policy_max p \<Longrightarrow> store_freq_awake t (Some p) (Some input) count = (Inl EINVAL, t)"
  by (simp_all add: store_up_threshold_def store_down_threshold_def store_io_is_busy_def
        store_freq_max_suspend_def store_freq_awake_def)

lemma out_of_range_write_clamped:
  "input > 100
     \<Longrightarrow> store_freq_step_up t (Some input) count = (Inr count, t\<lparr>freq_step_up := 100\<rparr>)"
  "input > 100
     \<Longrightarrow> store_freq_step_down t (Some input) count = (Inr count, t\<lparr>freq_step_down := 100\<rparr>)"
  "input > 1
     \<Longrightarrow> fst (store_ignore_nice_load t infos online samples (Some input) count) = Inr count
       \<and> ignore_nice (fst (snd (store_ignore_nice_load t infos online samples (Some input) count)))
           = 1"
  "input < msr
     \<Longrightarrow> fst (store_sampling_rate u2j jiffies cpu_get pols online msr t infos (Some input) count)
           = Inr count
       \<and> sampling_rate (fst (snd (store_sampling_rate u2j jiffies cpu_get pols online msr t infos
                                     (Some input) count))) = msr"
  by (auto simp: store_freq_step_up_def store_freq_step_down_def store_ignore_nice_load_def
        store_sampling_rate_def update_sampling_rate_def Let_def max_def)

text \<open>
  Claim C7, as stated, fails: writing 150 to \<open>freq_step_up\<close>, whose range is \<open>[0, 100]\<close>,
  is not refused; the value is clamped to 100, stored, and the write reports success.
\<close>

theorem invalid_write_rejection_counterexample:
  "(100 :: u32) < 150
   \<and> store_freq_step_up dbs_tuners_ins (Some 150) 4
       = (Inr 4, dbs_tuners_ins\<lparr>freq_step_up := 100\<rparr>)
   \<and> fst (store_freq_step_up dbs_tuners_ins (Some 150) 4) \<noteq> Inl EINVAL
   \<and> snd (store_freq_step_up dbs_tuners_ins (Some 150) 4) \<noteq> dbs_tuners_ins"
  by (simp add: store_freq_step_up_def dbs_tuners_ins_def)

text \<open>
  Claim C7, amended. A write that does not parse is refused with \<^verbatim>\<open>-EINVAL\<close> and changes
  nothing, for every tunable. A parsed value out of range is refused with \<^verbatim>\<open>-EINVAL\<close>,
  the tunables unchanged, for \<open>up_threshold\<close>, \<open>down_threshold\<close>, \<open>io_is_busy\<close>,
  \<open>freq_max_suspend\<close> and \<open>freq_awake\<close>. For the remaining range-limited tunables it is
  clamped into range and committed, and the write reports success: \<open>freq_step_up\<close> and
  \<open>freq_step_down\<close> above 100 become 100, \<open>ignore_nice_load\<close> above 1 becomes 1, and a
  \<open>sampling_rate\<close> below \<open>min_sampling_rate\<close> becomes \<open>min_sampling_rate\<close>.
\<close>

theorem invalid_write_outcomes:
  "store_up_threshold t None count = (Inl EINVAL, t)
   \<and> store_down_threshold t None count = (Inl EINVAL, t)
   \<and> store_freq_middle t None count = (Inl EINVAL, t)
   \<and> store_freq_step_up t None count = (Inl EINVAL, t)
   \<and> store_freq_step_down t None count = (Inl EINVAL, t)
   \<and> store_io_is_busy t None count = (Inl EINVAL, t)
   \<and> store_freq_max_suspend t policy None count = (Inl EINVAL, t)
   \<and> store_freq_awake t policy None count = (Inl EINVAL, t)
   \<and> store_ignore_nice_load t infos online samples None count = (Inl EINVAL, t, infos)
   \<and> store_sampling_rate u2j jiffies cpu_get pols online msr t infos None count
       = (Inl EINVAL, t, infos)
   \<and> (input > 100 \<or> input \<le> down_threshold t
        \<longrightarrow> store_up_threshold t (Some input) count = (Inl EINVAL, t))
   \<and> (input < 11 \<or> input > 100 \<or> input \<ge> up_threshold t
        \<longrightarrow> store_down_threshold t (Some input) count = (Inl EINVAL, t))
   \<and> (input > 1 \<longrightarrow> store_io_is_busy t (Some input) count = (Inl EINVAL, t))
   \<and> (input > policy_max p \<or> input < freq_middle t
        \<longrightarrow> store_freq_max_suspend t (Some p) (Some input) count = (Inl EINVAL, t))
   \<and> (input > policy_max p
        \<longrightarrow> store_freq_awake t (Some p) (Some input) count = (Inl EINVAL, t))
   \<and> (input > 100
        \<longrightarrow> store_freq_step_up t (Some input) count = (Inr count, t\<lparr>freq_step_up := 100\<rparr>))
   \<and> (input > 100
        \<longrightarrow> store_freq_step_down t (Some input) count
              = (Inr count, t\<lparr>freq_step_down := 100\<rparr>))
   \<and> (input > 1
        \<longrightarrow> fst (store_ignore_nice_load t infos online samples (Some input) count) = Inr count
            \<and> ignore_nice
                (fst (snd (store_ignore_nice_load t infos online samples (Some input) count)))
                = 1)
   \<and> (input < msr
        \<longrightarrow> fst (store_sampling_rate u2j jiffies cpu_get pols online msr t infos (Some input)
                   count) = Inr count
            \<and> sampling_rate
                (fst (snd (store_sampling_rate u2j jiffies cpu_get pols online msr t infos
                             (Some input) count))) = msr)"
  by (intro conjI impI)
    (simp_all add: malformed_write_rejected out_of_range_write_rejected
       out_of_range_write_clamped)

text \<open>On the initial tunables: 150 is refused as a threshold and as \<open>io_is_busy\<close>, clamped
  to 100 as a step and to 1 as \<open>ignore_nice_load\<close>, and raised to the minimum of 10000 as
  \<open>sampling_rate\<close>; 2000000, above the policy's maximum of 1800000, is refused as
  \<open>freq_max_suspend\<close> and as \<open>freq_awake\<close>.\<close>

theorem invalid_write_outcomes_witness:
  "(150 :: u32) > 100 \<and> (150 :: u32) > 1 \<and> (150 :: u32) < 10000
   \<and> (2000000 :: u32) > policy_max example_policy
   \<and> store_up_threshold dbs_tuners_ins (Some 150) 4 = (Inl EINVAL, dbs_tuners_ins)
   \<and> store_down_threshold dbs_tuners_ins (Some 150) 4 = (Inl EINVAL, dbs_tuners_ins)
   \<and> store_io_is_busy dbs_tuners_ins (Some 150) 4 = (Inl EINVAL, dbs_tuners_ins)
   \<and> store_freq_max_suspend dbs_tuners_ins (Some example_policy) (Some 2000000) 8
       = (Inl EINVAL, dbs_tuners_ins)
   \<and> store_freq_awake dbs_tuners_ins (Some example_policy) (Some 2000000) 8
       = (Inl EINVAL, dbs_tuners_ins)
   \<and> store_freq_step_up dbs_tuners_ins (Some 150) 4
       = (Inr 4, dbs_tuners_ins\<lparr>freq_step_up := 100\<rparr>)
   \<and> store_freq_step_down dbs_tuners_ins (Some 150) 4
       = (Inr 4, dbs_tuners_ins\<lparr>freq_step_down := 100\<rparr>)
   \<and> ignore_nice (fst (snd (store_ignore_nice_load dbs_tuners_ins (\<lambda>c. example_info) [0]
        (\<lambda>c. \<lparr>cur_idle_time = 50, cur_wall_time = 100, cpustat_nice = 0\<rparr>) (Some 150) 4))) = 1
   \<and> sampling_rate (fst (snd (store_sampling_rate example_usecs_to_jiffies 1000 example_cpu_get
        (\<lambda>a. example_policy) [0] 10000 dbs_tuners_ins (\<lambda>c. example_info) (Some 150) 4))) = 10000"
proof -
  have a: "(150 :: u32) > 100 \<and> (150 :: u32) > 1 \<and> (150 :: u32) < 10000"
    by simp
  have b: "(2000000 :: u32) > policy_max example_policy"
    by (simp add: example_policy_def)
  show ?thesis
    using a b
      invalid_write_outcomes [where input = 150 and t = dbs_tuners_ins and count = 4
        and msr = 10000 and infos = "\<lambda>c. example_info" and online = "[0]"
        and samples = "\<lambda>c. \<lparr>cur_idle_time = 50, cur_wall_time = 100, cpustat_nice = 0\<rparr>"
        and u2j = example_usecs_to_jiffies and jiffies = 1000 and cpu_get = example_cpu_get
        and pols = "\<lambda>a. example_policy"]
      invalid_write_outcomes [where input = 2000000 and t = dbs_tuners_ins and count = 8
        and p = example_policy]
    by blast
qed

subsection \<open>Sampling leaves the decision state alone\<close>

lemma sample_cpu_keeps:
  "cur_policy (fst (sample_cpu nu t d s)) = cur_policy d"
  "work (fst (sample_cpu nu t d s)) = work d"
  "down_skip (fst (sample_cpu nu t d s)) = down_skip d"
  "requested_freq (fst (sample_cpu nu t d s)) = requested_freq d"
  "cpu_max_freq (fst (sample_cpu nu t d s)) = cpu_max_freq d"
  "cpu_maxcur_freq (fst (sample_cpu nu t d s)) = cpu_maxcur_freq d"
  "cpu (fst (sample_cpu nu t d s)) = cpu d"
  "enable (fst (sample_cpu nu t d s)) = enable d"
  by (simp_all add: sample_cpu_def Let_def)

lemma get_absolute_load_keeps:
  assumes "\<And>d s. f (fst (sample_cpu nu t d s)) = f d"
  shows "f (fst (get_absolute_load nu t samples js infos m) k) = f (infos k)"
proof (induction js arbitrary: infos m)
  case Nil
  show ?case by simp
next
  case (Cons j js)
  obtain d w i where s: "sample_cpu nu t (infos j) (samples j) = (d, w, i)"
    by (cases "sample_cpu nu t (infos j) (samples j)") auto
  have fd: "f d = f (infos j)"
    using assms [of "infos j" "samples j"] by (simp add: s)
  have step: "f (fst (get_absolute_load nu t samples js (infos(j := d)) m') k) = f (infos k)"
    for m'
  proof -
    have "f (fst (get_absolute_load nu t samples js (infos(j := d)) m') k)
            = f ((infos(j := d)) k)"
      by (rule Cons.IH)
    also have "\<dots> = f (infos k)"
      using fd by simp
    finally show ?thesis .
  qed
  show ?case
    by (simp add: s Let_def step)
qed

lemma sampled_infos_keeps:
  "cur_policy (sampled_infos nu samples t pols infos this k) = cur_policy (infos k)"
  "work (sampled_infos nu samples t pols infos this k) = work (infos k)"
  "down_skip (sampled_infos nu samples t pols infos this k) = down_skip (infos k)"
  "requested_freq (sampled_infos nu samples t pols infos this k) = requested_freq (infos k)"
  "cpu_max_freq (sampled_infos nu samples t pols infos this k) = cpu_max_freq (infos k)"
  "cpu_maxcur_freq (sampled_infos nu samples t pols infos this k) = cpu_maxcur_freq (infos k)"
  "cpu (sampled_infos nu samples t pols infos this k) = cpu (infos k)"
  "enable (sampled_infos nu samples t pols infos this k) = enable (infos k)"
  by (simp_all add: sampled_infos_def get_absolute_load_keeps sample_cpu_keeps)

text \<open>One cycle is the decision on the sampled load, taken on the entry as sampling left it.\<close>

lemma dbs_check_cpu_eq:
  "dbs_check_cpu nu samples t pols infos this =
     ((sampled_infos nu samples t pols infos this)
        (this := fst (check_frequency t (pols (cur_policy (infos this)))
                        (sampled_infos nu samples t pols infos this this)
                        (sampled_load nu samples t pols infos this))),
      snd (check_frequency t (pols (cur_policy (infos this)))
             (sampled_infos nu samples t pols infos this this)
             (sampled_load nu samples t pols infos this)))"
  by (simp add: dbs_check_cpu_def sampled_infos_def sampled_load_def Let_def
        split: prod.splits)

subsection \<open>The increase zone\<close>

lemma unat_increase_target:
  "unat (if (freq_step_up t * cpuinfo_max_freq p) div 100 = 0 then 5
         else (freq_step_up t * cpuinfo_max_freq p) div 100) = increase_target t p"
proof -
  have q: "unat ((freq_step_up t * cpuinfo_max_freq p) div 100)
             = (unat (freq_step_up t) * unat (cpuinfo_max_freq p)) mod 2 ^ 32 div 100"
    by (simp add: unat_div unat_word_ariths)
  show ?thesis
  proof (cases "(freq_step_up t * cpuinfo_max_freq p) div 100 = 0")
    case True
    then have "unat ((freq_step_up t * cpuinfo_max_freq p) div 100) = 0"
      by simp
    with True q show ?thesis
      by (simp add: increase_target_def)
  next
    case False
    then have "unat ((freq_step_up t * cpuinfo_max_freq p) div 100) \<noteq> 0"
      by (simp add: unat_eq_0)
    with False q show ?thesis
      by (simp add: increase_target_def Let_def)
  qed
qed

lemma check_frequency_increase:
  assumes "up_threshold t < load" and "freq_step_up t \<noteq> 0"
    and "requested_freq d \<noteq> policy_max p"
  shows "\<exists>r. check_frequency t p d load
               = (d\<lparr>down_skip := 0, requested_freq := r\<rparr>, Some (r, CPUFREQ_RELATION_L))
           \<and> unat r = min ((unat (requested_freq d) + increase_target t p) mod 2 ^ 32)
                         (unat (policy_max p))"
proof -
  define ft where "ft = (if (freq_step_up t * cpuinfo_max_freq p) div 100 = 0 then 5
                         else (freq_step_up t * cpuinfo_max_freq p) div 100)"
  define r where "r = (if requested_freq d + ft > policy_max p then policy_max p
                       else requested_freq d + ft)"
  have cf: "check_frequency t p d load
              = (d\<lparr>down_skip := 0, requested_freq := r\<rparr>, Some (r, CPUFREQ_RELATION_L))"
    using assms by (simp add: check_frequency_def Let_def r_def ft_def)
  have "unat ft = increase_target t p"
    unfolding ft_def by (rule unat_increase_target)
  then have s: "unat (requested_freq d + ft)
                  = (unat (requested_freq d) + increase_target t p) mod 2 ^ 32"
    by (simp add: unat_word_ariths)
  have "unat r = min (unat (requested_freq d + ft)) (unat (policy_max p))"
    by (simp add: r_def word_less_nat_alt min_def)
  with s cf show ?thesis
    by auto
qed

lemma check_frequency_saturated:
  assumes "up_threshold t < load" and "freq_step_up t \<noteq> 0"
    and "requested_freq d = policy_max p"
  shows "check_frequency t p d load = (d\<lparr>down_skip := 0\<rparr>, None)"
  using assms by (simp add: check_frequency_def Let_def)

text \<open>
  Claim C3, as stated, fails: with \<open>freq_step_up = 1\<close> and a reported maximum of 50 the
  quotient \<open>1 * 50 / 100\<close> is 0 and the code steps by 5, not by \<open>max(0, 1) = 1\<close>: a
  requested frequency of 10 under a ceiling of 100 becomes 15, not 11.
\<close>

theorem increase_zone_counterexample:
  "up_threshold (dbs_tuners_ins\<lparr>freq_step_up := 1\<rparr>)
     < sampled_load example_nice_usecs (example_sample 20) (dbs_tuners_ins\<lparr>freq_step_up := 1\<rparr>)
         (\<lambda>a. example_policy\<lparr>policy_min := 5, policy_max := 100, policy_cur := 10,
                              cpuinfo_max_freq := 50\<rparr>)
         (\<lambda>c. example_info\<lparr>requested_freq := 10\<rparr>) 0
   \<and> max ((1 * 50) div 100) 1 = (1 :: nat)
   \<and> min (10 + 1) 100 = (11 :: nat)
   \<and> requested_freq (fst (dbs_check_cpu example_nice_usecs (example_sample 20)
        (dbs_tuners_ins\<lparr>freq_step_up := 1\<rparr>)
        (\<lambda>a. example_policy\<lparr>policy_min := 5, policy_max := 100, policy_cur := 10,
                             cpuinfo_max_freq := 50\<rparr>)
        (\<lambda>c. example_info\<lparr>requested_freq := 10\<rparr>) 0) 0) = 15
   \<and> snd (dbs_check_cpu example_nice_usecs (example_sample 20)
        (dbs_tuners_ins\<lparr>freq_step_up := 1\<rparr>)
        (\<lambda>a. example_policy\<lparr>policy_min := 5, policy_max := 100, policy_cur := 10,
                             cpuinfo_max_freq := 50\<rparr>)
        (\<lambda>c. example_info\<lparr>requested_freq := 10\<rparr>) 0) = Some (15, CPUFREQ_RELATION_L)"
  by (simp add: dbs_check_cpu_def sampled_load_def check_frequency_def sample_cpu_def
        example_sample_def example_policy_def example_info_def dbs_tuners_ins_def Let_def)

text \<open>
  Claim C3, amended. In a cycle whose sampled load is strictly above \<open>up_threshold\<close>, with
  \<open>freq_step_up\<close> nonzero: \<open>down_skip\<close> is reset to 0. If \<open>requested_freq\<close> differs from
  \<^verbatim>\<open>policy->max\<close>, the target is \<open>freq_step_up * reported_max_freq / 100\<close>, or 5 when that
  quotient is 0; \<open>requested_freq\<close> becomes \<open>min(old requested_freq + target, policy->max)\<close>,
  product and sum being those of unsigned 32-bit arithmetic, and that rate is requested
  with relation at-least (\<^verbatim>\<open>CPUFREQ_RELATION_L\<close>). If \<open>requested_freq\<close> already equals
  \<^verbatim>\<open>policy->max\<close>, no request is issued and nothing changes but \<open>down_skip\<close>, reset to 0
  all the same. In both cases the previous counters are those that sampling left.
\<close>

theorem increase_zone:
  assumes "dbs_check_cpu nu samples t pols infos this = (infos', req)"
    and "up_threshold t < sampled_load nu samples t pols infos this"
    and "freq_step_up t \<noteq> 0"
  shows "(requested_freq (infos this) \<noteq> policy_max (pols (cur_policy (infos this))) \<longrightarrow>
            unat (requested_freq (infos' this))
              = min ((unat (requested_freq (infos this))
                        + increase_target t (pols (cur_policy (infos this)))) mod 2 ^ 32)
                    (unat (policy_max (pols (cur_policy (infos this)))))
            \<and> req = Some (requested_freq (infos' this), CPUFREQ_RELATION_L)
            \<and> infos' = (sampled_infos nu samples t pols infos this)
                (this := (sampled_infos nu samples t pols infos this this)
                   \<lparr>down_skip := 0, requested_freq := requested_freq (infos' this)\<rparr>))
       \<and> (requested_freq (infos this) = policy_max (pols (cur_policy (infos this))) \<longrightarrow>
            req = None
            \<and> requested_freq (infos' this) = requested_freq (infos this)
            \<and> infos' = (sampled_infos nu samples t pols infos this)
                (this := (sampled_infos nu samples t pols infos this this)\<lparr>down_skip := 0\<rparr>))
       \<and> down_skip (infos' this) = 0"
proof (cases "requested_freq (infos this) = policy_max (pols (cur_policy (infos this)))")
  case True
  then have "requested_freq (sampled_infos nu samples t pols infos this this)
               = policy_max (pols (cur_policy (infos this)))"
    by (simp add: sampled_infos_keeps)
  from check_frequency_saturated [OF assms(2,3) this] assms(1) True show ?thesis
    by (auto simp: dbs_check_cpu_eq sampled_infos_keeps)
next
  case False
  then have "requested_freq (sampled_infos nu samples t pols infos this this)
               \<noteq> policy_max (pols (cur_policy (infos this)))"
    by (simp add: sampled_infos_keeps)
  from check_frequency_increase [OF assms(2,3) this] assms(1) False show ?thesis
    by (auto simp: dbs_check_cpu_eq sampled_infos_keeps)
qed

text \<open>The specification's scenario: range \<open>[300000, 1800000]\<close>, reported maximum 1800000,
  thresholds 70 and 30, \<open>freq_step_up = 5\<close>, 900000 requested, a load of 80: the target is
  90000 and 990000 is requested with relation at-least.\<close>

theorem increase_zone_witness:
  "up_threshold dbs_tuners_ins
     < sampled_load example_nice_usecs (example_sample 20) dbs_tuners_ins (\<lambda>a. example_policy)
         (\<lambda>c. example_info) 0
   \<and> freq_step_up dbs_tuners_ins \<noteq> 0
   \<and> requested_freq example_info \<noteq> policy_max example_policy
   \<and> increase_target dbs_tuners_ins example_policy = 90000
   \<and> unat (requested_freq (fst (dbs_check_cpu example_nice_usecs (example_sample 20)
        dbs_tuners_ins (\<lambda>a. example_policy) (\<lambda>c. example_info) 0) 0)) = 990000
   \<and> snd (dbs_check_cpu example_nice_usecs (example_sample 20)
        dbs_tuners_ins (\<lambda>a. example_policy) (\<lambda>c. example_info) 0)
       = Some (requested_freq (fst (dbs_check_cpu example_nice_usecs (example_sample 20)
            dbs_tuners_ins (\<lambda>a. example_policy) (\<lambda>c. example_info) 0) 0), CPUFREQ_RELATION_L)
   \<and> down_skip (fst (dbs_check_cpu example_nice_usecs (example_sample 20)
        dbs_tuners_ins (\<lambda>a. example_policy) (\<lambda>c. example_info) 0) 0) = 0"
proof -
  have load: "sampled_load example_nice_usecs (example_sample 20) dbs_tuners_ins
                (\<lambda>a. example_policy) (\<lambda>c. example_info) 0 = 80"
    by (simp add: sampled_load_def sample_cpu_def example_sample_def example_policy_def
          example_info_def dbs_tuners_ins_def Let_def)
  have a: "up_threshold dbs_tuners_ins
             < sampled_load example_nice_usecs (example_sample 20) dbs_tuners_ins
                 (\<lambda>a. example_policy) (\<lambda>c. example_info) 0"
    by (simp add: load) (simp add: dbs_tuners_ins_def)
  have b: "freq_step_up dbs_tuners_ins \<noteq> 0"
    by (simp add: dbs_tuners_ins_def)
  have c: "requested_freq example_info \<noteq> policy_max example_policy"
    by (simp add: example_info_def example_policy_def)
  have d: "increase_target dbs_tuners_ins example_policy = 90000"
    by (simp add: increase_target_def dbs_tuners_ins_def example_policy_def)
  have e: "cur_policy example_info = 0" "unat (requested_freq example_info) = 900000"
    "unat (policy_max example_policy) = 1800000"
    by (simp_all add: example_info_def example_policy_def)
  show ?thesis
    using a b c d e
      increase_zone [OF surjective_pairing a b]
    by simp
qed

subsection \<open>The settle zone\<close>

lemma check_frequency_settle:
  assumes "down_threshold t \<le> load" and "load \<le> up_threshold t"
    and "policy_min p \<le> policy_max p"
  shows "check_frequency t p d load =
           (if policy_cur p = freq_middle t then (d, None)
            else (d\<lparr>requested_freq := max (policy_min p) (min (freq_middle t) (policy_max p))\<rparr>,
                  Some (max (policy_min p) (min (freq_middle t) (policy_max p)),
                        CPUFREQ_RELATION_L)))"
proof -
  have "(if freq_middle t > policy_max p then policy_max p
         else if freq_middle t < policy_min p then policy_min p else freq_middle t)
          = max (policy_min p) (min (freq_middle t) (policy_max p))"
    using assms(3) by (auto simp: max_def min_def)
  moreover have "\<not> up_threshold t < load" and "\<not> load < down_threshold t"
    using assms(1,2) by auto
  ultimately show ?thesis
    by (auto simp: check_frequency_def Let_def)
qed

text \<open>
  Claim C8. In a cycle whose sampled load lies between \<open>down_threshold\<close> and \<open>up_threshold\<close>
  inclusive: if the current rate \<^verbatim>\<open>policy->cur\<close> equals \<open>freq_middle\<close>, no request is issued
  and no CPU's \<open>requested_freq\<close> or \<open>down_skip\<close> changes (the array is as sampling left it);
  otherwise \<open>requested_freq\<close> becomes \<open>freq_middle\<close> clamped into
  \<open>[policy->min, policy->max]\<close> and is requested with relation at-least
  (\<^verbatim>\<open>CPUFREQ_RELATION_L\<close>).
\<close>

theorem settle_zone:
  assumes "dbs_check_cpu nu samples t pols infos this = (infos', req)"
    and "down_threshold t \<le> sampled_load nu samples t pols infos this"
    and "sampled_load nu samples t pols infos this \<le> up_threshold t"
    and "policy_min (pols (cur_policy (infos this))) \<le> policy_max (pols (cur_policy (infos this)))"
  shows "(policy_cur (pols (cur_policy (infos this))) = freq_middle t \<longrightarrow>
            req = None
            \<and> infos' = sampled_infos nu samples t pols infos this
            \<and> (\<forall>k. requested_freq (infos' k) = requested_freq (infos k)
                    \<and> down_skip (infos' k) = down_skip (infos k)))
       \<and> (policy_cur (pols (cur_policy (infos this))) \<noteq> freq_middle t \<longrightarrow>
            requested_freq (infos' this)
              = max (policy_min (pols (cur_policy (infos this))))
                    (min (freq_middle t) (policy_max (pols (cur_policy (infos this)))))
            \<and> req = Some (requested_freq (infos' this), CPUFREQ_RELATION_L)
            \<and> infos' = (sampled_infos nu samples t pols infos this)
                (this := (sampled_infos nu samples t pols infos this this)
                   \<lparr>requested_freq := requested_freq (infos' this)\<rparr>))"
  using assms(1) check_frequency_settle [OF assms(2,3,4)]
  by (auto simp: dbs_check_cpu_eq sampled_infos_keeps)

text \<open>The specification's scenario: range \<open>[300000, 1800000]\<close>, \<open>freq_middle = 787200\<close>,
  a current rate of 900000 and a load of 50 give a request for 787200 with relation
  at-least.\<close>

theorem settle_zone_witness:
  "down_threshold dbs_tuners_ins
     \<le> sampled_load example_nice_usecs (example_sample 50) dbs_tuners_ins (\<lambda>a. example_policy)
         (\<lambda>c. example_info) 0
   \<and> sampled_load example_nice_usecs (example_sample 50) dbs_tuners_ins (\<lambda>a. example_policy)
         (\<lambda>c. example_info) 0 \<le> up_threshold dbs_tuners_ins
   \<and> sampled_load example_nice_usecs (example_sample 50) dbs_tuners_ins (\<lambda>a. example_policy)
         (\<lambda>c. example_info) 0 = 50
   \<and> policy_min example_policy = 300000 \<and> policy_max example_policy = 1800000
   \<and> policy_cur example_policy = 900000 \<and> freq_middle dbs_tuners_ins = 787200
   \<and> requested_freq (fst (dbs_check_cpu example_nice_usecs (example_sample 50)
        dbs_tuners_ins (\<lambda>a. example_policy) (\<lambda>c. example_info) 0) 0) = 787200
   \<and> snd (dbs_check_cpu example_nice_usecs (example_sample 50)
        dbs_tuners_ins (\<lambda>a. example_policy) (\<lambda>c. example_info) 0)
       = Some (787200, CPUFREQ_RELATION_L)"
proof -
  have load: "sampled_load example_nice_usecs (example_sample 50) dbs_tuners_ins
                (\<lambda>a. example_policy) (\<lambda>c. example_info) 0 = 50"
    by (simp add: sampled_load_def sample_cpu_def example_sample_def example_policy_def
          example_info_def dbs_tuners_ins_def Let_def)
  have a: "down_threshold dbs_tuners_ins
             \<le> sampled_load example_nice_usecs (example_sample 50) dbs_tuners_ins
                 (\<lambda>a. example_policy) (\<lambda>c. example_info) 0"
    by (simp add: load) (simp add: dbs_tuners_ins_def)
  have b: "sampled_load example_nice_usecs (example_sample 50) dbs_tuners_ins
             (\<lambda>a. example_policy) (\<lambda>c. example_info) 0 \<le> up_threshold dbs_tuners_ins"
    by (simp add: load) (simp add: dbs_tuners_ins_def)
  have c: "policy_min ((\<lambda>a. example_policy) (cur_policy ((\<lambda>c. example_info) 0)))
             \<le> policy_max ((\<lambda>a. example_policy) (cur_policy ((\<lambda>c. example_info) 0)))"
    by (simp add: example_policy_def)
  have d: "policy_min example_policy = 300000" "policy_max example_policy = 1800000"
    "policy_cur example_policy = 900000" "freq_middle dbs_tuners_ins = 787200"
    by (simp_all add: example_policy_def dbs_tuners_ins_def)
  show ?thesis
    using a b load d settle_zone [OF surjective_pairing a b c]
    by simp
qed

subsection \<open>The decrease zone\<close>

text \<open>As long as the step does not exceed the requested frequency, the decrease zone
  lowers it by the step, stops at \<^verbatim>\<open>policy->min\<close>, and asks for the result with relation
  at-most unless the current rate is already the minimum.\<close>

lemma check_frequency_decrease:
  assumes "\<not> up_threshold t < load" and "load < down_threshold t"
    and "freq_step_down t \<noteq> 0"
    and "(freq_step_down t * cpuinfo_max_freq p) div 100 \<le> requested_freq d"
  shows "check_frequency t p d load =
           (d\<lparr>requested_freq :=
                 max (requested_freq d - (freq_step_down t * cpuinfo_max_freq p) div 100)
                     (policy_min p)\<rparr>,
            if policy_cur p = policy_min p then None
            else Some (max (requested_freq d - (freq_step_down t * cpuinfo_max_freq p) div 100)
                           (policy_min p), CPUFREQ_RELATION_H))
         \<and> unat (requested_freq d - (freq_step_down t * cpuinfo_max_freq p) div 100)
             = unat (requested_freq d) - unat ((freq_step_down t * cpuinfo_max_freq p) div 100)"
  using assms by (auto simp: check_frequency_def Let_def max_def unat_sub)

text \<open>
  Claim C2 holds of the intent and not of the code. With \<open>freq_step_down = 20\<close> and a
  reported maximum of 1800000 the step is 360000; taken from a requested frequency of
  300000 in unsigned 32-bit arithmetic it leaves 4294907296, which the test against
  \<^verbatim>\<open>policy->min\<close> does not catch. The claim gives \<open>max(300000 - 360000, 300000) = 300000\<close>;
  the code stores 4294907296, above \<^verbatim>\<open>policy->max\<close>, and requests it with relation at-most.
\<close>

theorem decrease_zone_wraps:
  "sampled_load example_nice_usecs (example_sample 100) (dbs_tuners_ins\<lparr>freq_step_down := 20\<rparr>)
       (\<lambda>a. example_policy\<lparr>policy_cur := 384000\<rparr>)
       (\<lambda>c. example_info\<lparr>requested_freq := 300000\<rparr>) 0
     < down_threshold (dbs_tuners_ins\<lparr>freq_step_down := 20\<rparr>)
   \<and> (freq_step_down (dbs_tuners_ins\<lparr>freq_step_down := 20\<rparr>)
        * cpuinfo_max_freq (example_policy\<lparr>policy_cur := 384000\<rparr>)) div 100 = 360000
   \<and> requested_freq (fst (dbs_check_cpu example_nice_usecs (example_sample 100)
        (dbs_tuners_ins\<lparr>freq_step_down := 20\<rparr>)
        (\<lambda>a. example_policy\<lparr>policy_cur := 384000\<rparr>)
        (\<lambda>c. example_info\<lparr>requested_freq := 300000\<rparr>) 0) 0) = 4294907296
   \<and> snd (dbs_check_cpu example_nice_usecs (example_sample 100)
        (dbs_tuners_ins\<lparr>freq_step_down := 20\<rparr>)
        (\<lambda>a. example_policy\<lparr>policy_cur := 384000\<rparr>)
        (\<lambda>c. example_info\<lparr>requested_freq := 300000\<rparr>) 0)
       = Some (4294907296, CPUFREQ_RELATION_H)
   \<and> policy_max (example_policy\<lparr>policy_cur := 384000\<rparr>) < 4294907296
   \<and> policy_min (example_policy\<lparr>policy_cur := 384000\<rparr>) = 300000"
  by (simp add: dbs_check_cpu_def sampled_load_def check_frequency_def sample_cpu_def
        example_sample_def example_policy_def example_info_def dbs_tuners_ins_def Let_def)

subsection \<open>The bounds on the requested frequency\<close>

text \<open>The decision keeps a requested frequency within \<open>[policy->min, policy->max]\<close> there
  as long as neither the step down exceeds it nor the step up carries it past the 32
  bits.\<close>

lemma check_frequency_bounds:
  assumes "policy_min p \<le> requested_freq d" and "requested_freq d \<le> policy_max p"
    and "load < down_threshold t
           \<longrightarrow> (freq_step_down t * cpuinfo_max_freq p) div 100 \<le> requested_freq d"
    and "up_threshold t < load
           \<longrightarrow> unat (requested_freq d) + increase_target t p < 2 ^ 32"
  shows "policy_min p \<le> requested_freq (fst (check_frequency t p d load))
       \<and> requested_freq (fst (check_frequency t p d load)) \<le> policy_max p"
proof -
  have minmax: "policy_min p \<le> policy_max p"
    using assms(1,2) by simp
  consider (up) "up_threshold t < load"
    | (down) "\<not> up_threshold t < load" "load < down_threshold t"
    | (settle) "down_threshold t \<le> load" "load \<le> up_threshold t"
    by fastforce
  then show ?thesis
  proof cases
    case up
    show ?thesis
    proof (cases "freq_step_up t = 0 \<or> requested_freq d = policy_max p")
      case True
      with up assms(1,2) show ?thesis
        by (auto simp: check_frequency_def Let_def)
    next
      case False
      then obtain r where r: "check_frequency t p d load
            = (d\<lparr>down_skip := 0, requested_freq := r\<rparr>, Some (r, CPUFREQ_RELATION_L))"
        and u: "unat r = min ((unat (requested_freq d) + increase_target t p) mod 2 ^ 32)
                             (unat (policy_max p))"
        using check_frequency_increase [OF up, of d p] by auto
      have "unat r = min (unat (requested_freq d) + increase_target t p) (unat (policy_max p))"
        using u assms(4) up by simp
      moreover have "unat (policy_min p) \<le> unat (requested_freq d)"
        and "unat (policy_min p) \<le> unat (policy_max p)"
        using assms(1) minmax by (simp_all add: word_le_nat_alt)
      ultimately have "unat (policy_min p) \<le> unat r \<and> unat r \<le> unat (policy_max p)"
        by simp
      then show ?thesis
        by (simp add: r word_le_nat_alt)
    qed
  next
    case down
    show ?thesis
    proof (cases "freq_step_down t = 0")
      case True
      with down assms(1,2) show ?thesis
        by (simp add: check_frequency_def)
    next
      case False
      have le: "(freq_step_down t * cpuinfo_max_freq p) div 100 \<le> requested_freq d"
        using assms(3) down by simp
      have "requested_freq d - (freq_step_down t * cpuinfo_max_freq p) div 100
              \<le> requested_freq d"
        using le by (simp add: word_le_nat_alt unat_sub)
      then have "max (requested_freq d - (freq_step_down t * cpuinfo_max_freq p) div 100)
                     (policy_min p) \<le> policy_max p"
        using assms(2) minmax by simp
      then show ?thesis
        using check_frequency_decrease [OF down False le] by simp
    qed
  next
    case settle
    show ?thesis
      using check_frequency_settle [OF settle minmax, of d] minmax assms(1,2)
      by (simp add: min_def max_def)
  qed
qed

text \<open>
  Claim C1 holds of the intent and not of the code. A CPU idling at its minimum, with
  300000 requested inside the range \<open>[300000, 1800000]\<close>, \<open>freq_step_down = 20\<close> and a load
  of 0: the step of 360000 wraps the requested frequency around to 4294907296, above
  \<^verbatim>\<open>policy->max\<close>, and it stays there since the test against \<^verbatim>\<open>policy->min\<close> does not
  catch it.
\<close>

theorem rate_bounds_broken_by_decrease:
  "policy_min (example_policy\<lparr>policy_cur := 300000\<rparr>)
     \<le> requested_freq (example_info\<lparr>requested_freq := 300000\<rparr>)
   \<and> requested_freq (example_info\<lparr>requested_freq := 300000\<rparr>)
     \<le> policy_max (example_policy\<lparr>policy_cur := 300000\<rparr>)
   \<and> requested_freq (fst (dbs_check_cpu example_nice_usecs (example_sample 100)
        (dbs_tuners_ins\<lparr>freq_step_down := 20\<rparr>)
        (\<lambda>a. example_policy\<lparr>policy_cur := 300000\<rparr>)
        (\<lambda>c. example_info\<lparr>requested_freq := 300000\<rparr>) 0) 0) = 4294907296
   \<and> \<not> requested_freq (fst (dbs_check_cpu example_nice_usecs (example_sample 100)
        (dbs_tuners_ins\<lparr>freq_step_down := 20\<rparr>)
        (\<lambda>a. example_policy\<lparr>policy_cur := 300000\<rparr>)
        (\<lambda>c. example_info\<lparr>requested_freq := 300000\<rparr>) 0) 0)
       \<le> policy_max (example_policy\<lparr>policy_cur := 300000\<rparr>)"
  by (simp add: dbs_check_cpu_def sampled_load_def check_frequency_def sample_cpu_def
        example_sample_def example_policy_def example_info_def dbs_tuners_ins_def Let_def)

subsection \<open>Discarded samples\<close>

lemma sample_cpu_prev:
  "prev_cpu_wall (fst (sample_cpu nu t d s)) = cur_wall_time s"
  "prev_cpu_idle (fst (sample_cpu nu t d s)) = cur_idle_time s"
  "ignore_nice t \<noteq> 0 \<Longrightarrow> prev_cpu_nice (fst (sample_cpu nu t d s)) = cpustat_nice s"
  by (simp_all add: sample_cpu_def Let_def)

text \<open>A sample that is read a second time has a wall-time delta of zero.\<close>

lemma sample_discarded_again:
  "sample_discarded nu t (fst (sample_cpu nu t d s)) s"
  by (simp add: sample_discarded_def sample_cpu_def Let_def)

lemma get_absolute_load_other:
  "k \<notin> set js \<Longrightarrow> fst (get_absolute_load nu t samples js infos m) k = infos k"
proof (induction js arbitrary: infos m)
  case Nil
  show ?case by simp
next
  case (Cons j js)
  obtain d w i where s: "sample_cpu nu t (infos j) (samples j) = (d, w, i)"
    by (cases "sample_cpu nu t (infos j) (samples j)") auto
  have step: "fst (get_absolute_load nu t samples js (infos(j := d)) m') k = infos k" for m'
  proof -
    have "fst (get_absolute_load nu t samples js (infos(j := d)) m') k = (infos(j := d)) k"
      using Cons.prems by (intro Cons.IH) simp
    also have "\<dots> = infos k"
      using Cons.prems by simp
    finally show ?thesis .
  qed
  show ?case
    by (simp add: s Let_def step)
qed

lemma get_absolute_load_prev:
  "j \<in> set js \<Longrightarrow>
     prev_cpu_wall (fst (get_absolute_load nu t samples js infos m) j) = cur_wall_time (samples j)
     \<and> prev_cpu_idle (fst (get_absolute_load nu t samples js infos m) j)
         = cur_idle_time (samples j)
     \<and> (ignore_nice t \<noteq> 0 \<longrightarrow>
          prev_cpu_nice (fst (get_absolute_load nu t samples js infos m) j)
            = cpustat_nice (samples j))"
proof (induction js arbitrary: infos m)
  case Nil
  then show ?case by simp
next
  case (Cons c cs)
  obtain d w i where s: "sample_cpu nu t (infos c) (samples c) = (d, w, i)"
    by (cases "sample_cpu nu t (infos c) (samples c)") auto
  have d: "d = fst (sample_cpu nu t (infos c) (samples c))"
    by (simp add: s)
  have step: "prev_cpu_wall (fst (get_absolute_load nu t samples cs (infos(c := d)) m') j)
                = cur_wall_time (samples j)
     \<and> prev_cpu_idle (fst (get_absolute_load nu t samples cs (infos(c := d)) m') j)
         = cur_idle_time (samples j)
     \<and> (ignore_nice t \<noteq> 0 \<longrightarrow>
          prev_cpu_nice (fst (get_absolute_load nu t samples cs (infos(c := d)) m') j)
            = cpustat_nice (samples j))" for m'
  proof (cases "j \<in> set cs")
    case True
    then show ?thesis by (rule Cons.IH)
  next
    case False
    with Cons.prems have jc: "j = c" by simp
    have "fst (get_absolute_load nu t samples cs (infos(c := d)) m') j = (infos(c := d)) j"
      using False by (rule get_absolute_load_other)
    then show ?thesis
      by (simp add: jc d sample_cpu_prev)
  qed
  show ?case
    by (simp add: s Let_def step)
qed

lemma get_absolute_load_discarded:
  "\<forall>j\<in>set js. sample_discarded nu t (infos j) (samples j)
     \<Longrightarrow> snd (get_absolute_load nu t samples js infos m) = m"
proof (induction js arbitrary: infos)
  case Nil
  show ?case by simp
next
  case (Cons c cs)
  obtain d w i where s: "sample_cpu nu t (infos c) (samples c) = (d, w, i)"
    by (cases "sample_cpu nu t (infos c) (samples c)") auto
  have d: "d = fst (sample_cpu nu t (infos c) (samples c))"
    by (simp add: s)
  have guard: "w = 0 \<or> w < i"
    using Cons.prems by (simp add: sample_discarded_def s)
  have "\<forall>j\<in>set cs. sample_discarded nu t ((infos(c := d)) j) (samples j)"
    using Cons.prems by (simp add: d sample_discarded_again)
  then have "snd (get_absolute_load nu t samples cs (infos(c := d)) m) = m"
    by (rule Cons.IH)
  with guard show ?case
    by (auto simp: s)
qed

text \<open>With no load seen, the decision is never the increase zone, and the decrease zone
  unless \<open>down_threshold\<close> is 0.\<close>

lemma check_frequency_no_load:
  assumes "0 < down_threshold t"
  shows "freq_step_down t = 0 \<Longrightarrow> check_frequency t p d 0 = (d, None)"
    and "freq_step_down t \<noteq> 0 \<Longrightarrow> policy_cur p \<noteq> policy_min p
           \<Longrightarrow> \<exists>r. snd (check_frequency t p d 0) = Some (r, CPUFREQ_RELATION_H)"
    and "freq_step_down t \<noteq> 0 \<Longrightarrow> policy_cur p = policy_min p
           \<Longrightarrow> snd (check_frequency t p d 0) = None"
  using assms by (simp_all add: check_frequency_def Let_def)

lemma do_dbs_timer_rearms:
  assumes "u2j (sampling_rate t) \<noteq> 0"
  shows "\<exists>infos''. do_dbs_timer u2j jiffies nu samples t pols infos this
             = Some (infos'', snd (dbs_check_cpu nu samples t pols infos this))
           \<and> work_pending (work (infos'' this))
           \<and> (\<forall>k. requested_freq (infos'' k)
                    = requested_freq (fst (dbs_check_cpu nu samples t pols infos this) k))"
  using assms
  by (simp add: do_dbs_timer_def Let_def queue_delayed_work_on_def split: prod.splits)

lemma check_frequency_keeps_prev:
  "prev_cpu_wall (fst (check_frequency t p d load)) = prev_cpu_wall d"
  "prev_cpu_idle (fst (check_frequency t p d load)) = prev_cpu_idle d"
  "prev_cpu_nice (fst (check_frequency t p d load)) = prev_cpu_nice d"
  by (simp_all add: check_frequency_def Let_def)

lemma dbs_check_cpu_prev:
  assumes "j \<in> set (policy_cpus (pols (cur_policy (infos this))))"
  shows "prev_cpu_wall (fst (dbs_check_cpu nu samples t pols infos this) j)
           = cur_wall_time (samples j)
       \<and> prev_cpu_idle (fst (dbs_check_cpu nu samples t pols infos this) j)
           = cur_idle_time (samples j)
       \<and> (ignore_nice t \<noteq> 0 \<longrightarrow>
            prev_cpu_nice (fst (dbs_check_cpu nu samples t pols infos this) j)
              = cpustat_nice (samples j))"
  using get_absolute_load_prev [OF assms, of nu t samples infos 0]
  by (cases "j = this")
    (simp_all add: dbs_check_cpu_eq check_frequency_keeps_prev sampled_infos_def)

text \<open>
  Claim C5, as stated, fails: a discarded sample leaves the load at 0, and the cycle goes
  on to decide on that load. With the initial tunables, 900000 requested and a sample
  with no wall time elapsed, the requested frequency drops to 810000 and that rate is
  requested with relation at-most.
\<close>

theorem discarded_sample_counterexample:
  "sample_discarded example_nice_usecs dbs_tuners_ins example_info (stale_sample 0)
   \<and> policy_cpus example_policy = [0]
   \<and> requested_freq example_info = 900000
   \<and> requested_freq (fst (dbs_check_cpu example_nice_usecs stale_sample dbs_tuners_ins
        (\<lambda>a. example_policy) (\<lambda>c. example_info) 0) 0) = 810000
   \<and> snd (dbs_check_cpu example_nice_usecs stale_sample dbs_tuners_ins
        (\<lambda>a. example_policy) (\<lambda>c. example_info) 0) = Some (810000, CPUFREQ_RELATION_H)"
  by (simp add: dbs_check_cpu_def sample_discarded_def check_frequency_def sample_cpu_def
        stale_sample_def example_policy_def example_info_def dbs_tuners_ins_def Let_def)

text \<open>
  Claim C5, amended. In a cycle in which the sample of every CPU of the policy has a
  wall-time delta of zero or an idle-time delta above the wall-time delta, the samples are
  left out of the load, the previous wall and idle counters, and the previous nice counter
  when \<open>ignore_nice\<close> is set, are still updated to the newly read values, and the decision
  is the one for a load of 0. With \<open>down_threshold\<close> above 0 that is the decrease zone:
  if \<open>freq_step_down\<close> is 0 no request is issued and nothing else changes; if it is
  nonzero and \<^verbatim>\<open>policy->cur\<close> differs from \<^verbatim>\<open>policy->min\<close>, a rate is requested with relation
  at-most. The timer function queues the work again (its delay not being zero) and the
  periodic cycle continues.
\<close>

theorem discarded_samples:
  assumes "dbs_check_cpu nu samples t pols infos this = (infos', req)"
    and "\<forall>j\<in>set (policy_cpus (pols (cur_policy (infos this)))).
           sample_discarded nu t (infos j) (samples j)"
  shows "sampled_load nu samples t pols infos this = 0
       \<and> (\<forall>j\<in>set (policy_cpus (pols (cur_policy (infos this)))).
            prev_cpu_wall (infos' j) = cur_wall_time (samples j)
            \<and> prev_cpu_idle (infos' j) = cur_idle_time (samples j)
            \<and> (ignore_nice t \<noteq> 0 \<longrightarrow> prev_cpu_nice (infos' j) = cpustat_nice (samples j)))
       \<and> infos' = (sampled_infos nu samples t pols infos this)
           (this := fst (check_frequency t (pols (cur_policy (infos this)))
                           (sampled_infos nu samples t pols infos this this) 0))
       \<and> req = snd (check_frequency t (pols (cur_policy (infos this)))
                      (sampled_infos nu samples t pols infos this this) 0)
       \<and> (0 < down_threshold t \<and> freq_step_down t = 0 \<longrightarrow>
            req = None \<and> infos' = sampled_infos nu samples t pols infos this
            \<and> requested_freq (infos' this) = requested_freq (infos this))
       \<and> (0 < down_threshold t \<and> freq_step_down t \<noteq> 0
            \<and> policy_cur (pols (cur_policy (infos this)))
                \<noteq> policy_min (pols (cur_policy (infos this))) \<longrightarrow>
            (\<exists>r. req = Some (r, CPUFREQ_RELATION_H)))
       \<and> (u2j (sampling_rate t) \<noteq> 0 \<longrightarrow>
            (\<exists>infos''. do_dbs_timer u2j jiffies nu samples t pols infos this = Some (infos'', req)
               \<and> work_pending (work (infos'' this))))"
proof -
  have load: "sampled_load nu samples t pols infos this = 0"
    unfolding sampled_load_def using assms(2) by (rule get_absolute_load_discarded)
  have prev: "\<forall>j\<in>set (policy_cpus (pols (cur_policy (infos this)))).
            prev_cpu_wall (infos' j) = cur_wall_time (samples j)
            \<and> prev_cpu_idle (infos' j) = cur_idle_time (samples j)
            \<and> (ignore_nice t \<noteq> 0 \<longrightarrow> prev_cpu_nice (infos' j) = cpustat_nice (samples j))"
  proof
    fix j
    assume "j \<in> set (policy_cpus (pols (cur_policy (infos this))))"
    with dbs_check_cpu_prev [where j = j and pols = pols and infos = infos and this = this
        and nu = nu and samples = samples and t = t] assms(1)
    show "prev_cpu_wall (infos' j) = cur_wall_time (samples j)
            \<and> prev_cpu_idle (infos' j) = cur_idle_time (samples j)
            \<and> (ignore_nice t \<noteq> 0 \<longrightarrow> prev_cpu_nice (infos' j) = cpustat_nice (samples j))"
      by simp
  qed
  have dec: "infos' = (sampled_infos nu samples t pols infos this)
           (this := fst (check_frequency t (pols (cur_policy (infos this)))
                           (sampled_infos nu samples t pols infos this this) 0))"
    "req = snd (check_frequency t (pols (cur_policy (infos this)))
                      (sampled_infos nu samples t pols infos this this) 0)"
    using assms(1) by (simp_all add: dbs_check_cpu_eq load)
  have off: "0 < down_threshold t \<and> freq_step_down t = 0 \<longrightarrow>
            req = None \<and> infos' = sampled_infos nu samples t pols infos this
            \<and> requested_freq (infos' this) = requested_freq (infos this)"
    by (auto simp: dec check_frequency_no_load(1) sampled_infos_keeps)
  have on: "0 < down_threshold t \<and> freq_step_down t \<noteq> 0
            \<and> policy_cur (pols (cur_policy (infos this)))
                \<noteq> policy_min (pols (cur_policy (infos this))) \<longrightarrow>
            (\<exists>r. req = Some (r, CPUFREQ_RELATION_H))"
    using check_frequency_no_load(2) [of t "pols (cur_policy (infos this))"
        "sampled_infos nu samples t pols infos this this"]
    by (auto simp: dec)
  have timer: "u2j (sampling_rate t) \<noteq> 0 \<longrightarrow>
            (\<exists>infos''. do_dbs_timer u2j jiffies nu samples t pols infos this = Some (infos'', req)
               \<and> work_pending (work (infos'' this)))"
    using do_dbs_timer_rearms [of u2j t jiffies nu samples pols infos this] assms(1)
    by auto
  from load prev dec off on timer show ?thesis
    by blast
qed

text \<open>The concrete system with no wall time elapsed: with the initial tunables a rate is
  requested with relation at-most; with \<open>freq_step_down = 0\<close> nothing is requested and
  900000 stays requested. The previous counters are those of the sample either way.\<close>

theorem discarded_samples_witness:
  "policy_cpus example_policy = [0]
   \<and> sample_discarded example_nice_usecs dbs_tuners_ins example_info (stale_sample 0)
   \<and> 0 < down_threshold dbs_tuners_ins \<and> freq_step_down dbs_tuners_ins \<noteq> 0
   \<and> policy_cur example_policy \<noteq> policy_min example_policy
   \<and> example_usecs_to_jiffies (sampling_rate dbs_tuners_ins) \<noteq> 0
   \<and> sampled_load example_nice_usecs stale_sample dbs_tuners_ins (\<lambda>a. example_policy)
       (\<lambda>c. example_info) 0 = 0
   \<and> (\<exists>r. snd (dbs_check_cpu example_nice_usecs stale_sample dbs_tuners_ins
             (\<lambda>a. example_policy) (\<lambda>c. example_info) 0) = Some (r, CPUFREQ_RELATION_H))
   \<and> prev_cpu_wall (fst (dbs_check_cpu example_nice_usecs stale_sample dbs_tuners_ins
        (\<lambda>a. example_policy) (\<lambda>c. example_info) 0) 0) = cur_wall_time (stale_sample 0)
   \<and> (\<exists>infos''. do_dbs_timer example_usecs_to_jiffies 1000 example_nice_usecs stale_sample
          dbs_tuners_ins (\<lambda>a. example_policy) (\<lambda>c. example_info) 0
        = Some (infos'', snd (dbs_check_cpu example_nice_usecs stale_sample dbs_tuners_ins
             (\<lambda>a. example_policy) (\<lambda>c. example_info) 0))
        \<and> work_pending (work (infos'' 0)))
   \<and> freq_step_down (dbs_tuners_ins\<lparr>freq_step_down := 0\<rparr>) = 0
   \<and> snd (dbs_check_cpu example_nice_usecs stale_sample (dbs_tuners_ins\<lparr>freq_step_down := 0\<rparr>)
        (\<lambda>a. example_policy) (\<lambda>c. example_info) 0) = None
   \<and> requested_freq (fst (dbs_check_cpu example_nice_usecs stale_sample
        (dbs_tuners_ins\<lparr>freq_step_down := 0\<rparr>) (\<lambda>a. example_policy) (\<lambda>c. example_info) 0) 0)
       = requested_freq example_info"
proof -
  have a: "\<forall>j\<in>set (policy_cpus ((\<lambda>a. example_policy) (cur_policy ((\<lambda>c. example_info) 0)))).
      sample_discarded example_nice_usecs dbs_tuners_ins ((\<lambda>c. example_info) j) (stale_sample j)"
    by (simp add: sample_discarded_def sample_cpu_def stale_sample_def example_policy_def
          example_info_def dbs_tuners_ins_def Let_def)
  have a': "\<forall>j\<in>set (policy_cpus ((\<lambda>a. example_policy) (cur_policy ((\<lambda>c. example_info) 0)))).
      sample_discarded example_nice_usecs (dbs_tuners_ins\<lparr>freq_step_down := 0\<rparr>)
        ((\<lambda>c. example_info) j) (stale_sample j)"
    by (simp add: sample_discarded_def sample_cpu_def stale_sample_def example_policy_def
          example_info_def dbs_tuners_ins_def Let_def)
  have b: "0 < down_threshold dbs_tuners_ins" "freq_step_down dbs_tuners_ins \<noteq> 0"
    "policy_cur example_policy \<noteq> policy_min example_policy"
    "example_usecs_to_jiffies (sampling_rate dbs_tuners_ins) \<noteq> 0"
    "0 < down_threshold (dbs_tuners_ins\<lparr>freq_step_down := 0\<rparr>)"
    "freq_step_down (dbs_tuners_ins\<lparr>freq_step_down := 0\<rparr>) = 0"
    by (simp_all add: dbs_tuners_ins_def example_policy_def example_usecs_to_jiffies_def)
  have c: "policy_cpus example_policy = [0]" "cur_policy example_info = 0"
    by (simp_all add: example_policy_def example_info_def)
  note w = discarded_samples [where this = 0 and infos = "\<lambda>c. example_info"
        and pols = "\<lambda>a. example_policy" and jiffies = 1000
        and u2j = example_usecs_to_jiffies, OF surjective_pairing a]
  note w' = discarded_samples [where this = 0 and infos = "\<lambda>c. example_info"
        and pols = "\<lambda>a. example_policy" and jiffies = 1000
        and u2j = example_usecs_to_jiffies, OF surjective_pairing a']
  have load: "sampled_load example_nice_usecs stale_sample dbs_tuners_ins (\<lambda>a. example_policy)
       (\<lambda>c. example_info) 0 = 0"
    using w by blast
  have req: "\<exists>r. snd (dbs_check_cpu example_nice_usecs stale_sample dbs_tuners_ins
             (\<lambda>a. example_policy) (\<lambda>c. example_info) 0) = Some (r, CPUFREQ_RELATION_H)"
    using w b(1,2,3) by blast
  have "\<forall>j\<in>set (policy_cpus example_policy).
          prev_cpu_wall (fst (dbs_check_cpu example_nice_usecs stale_sample dbs_tuners_ins
            (\<lambda>a. example_policy) (\<lambda>c. example_info) 0) j) = cur_wall_time (stale_sample j)"
    using w by blast
  then have prev: "prev_cpu_wall (fst (dbs_check_cpu example_nice_usecs stale_sample
        dbs_tuners_ins (\<lambda>a. example_policy) (\<lambda>c. example_info) 0) 0)
      = cur_wall_time (stale_sample 0)"
    by (simp add: c)
  have timer: "\<exists>infos''. do_dbs_timer example_usecs_to_jiffies 1000 example_nice_usecs
          stale_sample dbs_tuners_ins (\<lambda>a. example_policy) (\<lambda>c. example_info) 0
        = Some (infos'', snd (dbs_check_cpu example_nice_usecs stale_sample dbs_tuners_ins
             (\<lambda>a. example_policy) (\<lambda>c. example_info) 0))
        \<and> work_pending (work (infos'' 0))"
    using w b(4) by blast
  have off: "snd (dbs_check_cpu example_nice_usecs stale_sample
        (dbs_tuners_ins\<lparr>freq_step_down := 0\<rparr>) (\<lambda>a. example_policy) (\<lambda>c. example_info) 0)
       = None
     \<and> requested_freq (fst (dbs_check_cpu example_nice_usecs stale_sample
        (dbs_tuners_ins\<lparr>freq_step_down := 0\<rparr>) (\<lambda>a. example_policy) (\<lambda>c. example_info) 0) 0)
       = requested_freq example_info"
    using w' b(5,6) by blast
  have a0: "sample_discarded example_nice_usecs dbs_tuners_ins example_info (stale_sample 0)"
    using a by (simp add: c)
  from a0 b c(1) load req prev timer off show ?thesis
    by blast
qed

subsection \<open>Suspend and resume\<close>

lemma cpufreq_update_policy_max [simp]:
  "policy_max (cpufreq_update_policy p) = policy_max p"
  by (simp add: cpufreq_update_policy_def)

text \<open>Suspending leaves alone the entries of the CPUs it does not visit.\<close>

lemma suspend_keeps_others:
  "\<forall>c\<in>set cs. cg c \<noteq> None \<Longrightarrow>
   \<exists>g'. suspend_resume True t cg cs g = Some g'
      \<and> (\<forall>k. k \<notin> set cs \<longrightarrow> clarity_cpu_dbs_info g' k = clarity_cpu_dbs_info g k)"
proof (induction cs arbitrary: g)
  case Nil
  show ?case by simp
next
  case (Cons c cs)
  from Cons.prems obtain a where a: "cg c = Some a"
    by auto
  define g1 where "g1 = g\<lparr>clarity_cpu_dbs_info := (clarity_cpu_dbs_info g)
          (c := (clarity_cpu_dbs_info g c)\<lparr>cpu_maxcur_freq := policy_max (policies g a)\<rparr>),
        policies := (policies g)
          (a := cpufreq_update_policy
                  (policies g a\<lparr>policy_max := freq_max_suspend t,
                                cpuinfo_max_freq := freq_max_suspend t\<rparr>))\<rparr>"
  have step: "suspend_resume True t cg (c # cs) g = suspend_resume True t cg cs g1"
    by (simp add: a g1_def Let_def)
  from Cons.prems have "\<forall>c\<in>set cs. cg c \<noteq> None"
    by simp
  from Cons.IH [OF this, of g1] obtain g' where
    g': "suspend_resume True t cg cs g1 = Some g'"
    and keep: "\<forall>k. k \<notin> set cs \<longrightarrow> clarity_cpu_dbs_info g' k = clarity_cpu_dbs_info g1 k"
    by blast
  have "\<forall>k. k \<notin> set (c # cs) \<longrightarrow> clarity_cpu_dbs_info g' k = clarity_cpu_dbs_info g k"
    using keep by (simp add: g1_def)
  with step g' show ?case
    by simp
qed

text \<open>With CPU 0 first among the online CPUs, suspending leaves in CPU 0's entry the
  ceiling that CPU 0's policy had.\<close>

lemma suspend_snapshot:
  assumes "\<forall>c\<in>set (0 # rest). cg c \<noteq> None" and "0 \<notin> set rest" and "cg 0 = Some a0"
  shows "\<exists>g'. suspend_resume True t cg (0 # rest) g = Some g'
           \<and> cpu_maxcur_freq (clarity_cpu_dbs_info g' 0) = policy_max (policies g a0)"
proof -
  define g1 where "g1 = g\<lparr>clarity_cpu_dbs_info := (clarity_cpu_dbs_info g)
          (0 := (clarity_cpu_dbs_info g 0)\<lparr>cpu_maxcur_freq := policy_max (policies g a0)\<rparr>),
        policies := (policies g)
          (a0 := cpufreq_update_policy
                  (policies g a0\<lparr>policy_max := freq_max_suspend t,
                                 cpuinfo_max_freq := freq_max_suspend t\<rparr>))\<rparr>"
  have step: "suspend_resume True t cg (0 # rest) g = suspend_resume True t cg rest g1"
    by (simp add: assms(3) g1_def Let_def)
  from assms(1) have "\<forall>c\<in>set rest. cg c \<noteq> None"
    by simp
  from suspend_keeps_others [OF this, of t g1] obtain g' where
    g': "suspend_resume True t cg rest g1 = Some g'"
    and keep: "\<forall>k. k \<notin> set rest \<longrightarrow> clarity_cpu_dbs_info g' k = clarity_cpu_dbs_info g1 k"
    by blast
  from keep assms(2) have "clarity_cpu_dbs_info g' 0 = clarity_cpu_dbs_info g1 0"
    by simp
  then have "cpu_maxcur_freq (clarity_cpu_dbs_info g' 0) = policy_max (policies g a0)"
    by (simp add: g1_def)
  with step g' show ?thesis
    by simp
qed

text \<open>Resuming gives the policy of every CPU it visits the ceiling kept in CPU 0's entry,
  and leaves the other policies' ceilings and the per-CPU array alone.\<close>

lemma resume_restores:
  "\<forall>c\<in>set cs. cg c \<noteq> None \<Longrightarrow>
   \<exists>g'. suspend_resume False t cg cs g = Some g'
      \<and> clarity_cpu_dbs_info g' = clarity_cpu_dbs_info g
      \<and> (\<forall>a. policy_max (policies g' a)
               = (if \<exists>c\<in>set cs. cg c = Some a
                  then cpu_maxcur_freq (clarity_cpu_dbs_info g 0)
                  else policy_max (policies g a)))"
proof (induction cs arbitrary: g)
  case Nil
  show ?case by simp
next
  case (Cons c cs)
  from Cons.prems obtain a where a: "cg c = Some a"
    by auto
  define g1 where "g1 = g\<lparr>policies := (policies g)
          (a := cpufreq_update_policy
                  (policies g a\<lparr>cpuinfo_max_freq := cpu_max_freq (clarity_cpu_dbs_info g 0),
                                policy_max := cpu_maxcur_freq (clarity_cpu_dbs_info g 0)\<rparr>))\<rparr>"
  have step: "suspend_resume False t cg (c # cs) g = suspend_resume False t cg cs g1"
    by (simp add: a g1_def Let_def)
  from Cons.prems have "\<forall>c\<in>set cs. cg c \<noteq> None"
    by simp
  from Cons.IH [OF this, of g1] obtain g' where
    g': "suspend_resume False t cg cs g1 = Some g'"
    and infos: "clarity_cpu_dbs_info g' = clarity_cpu_dbs_info g1"
    and pm: "\<forall>x. policy_max (policies g' x)
               = (if \<exists>c\<in>set cs. cg c = Some x
                  then cpu_maxcur_freq (clarity_cpu_dbs_info g1 0)
                  else policy_max (policies g1 x))"
    by blast
  have i1: "clarity_cpu_dbs_info g1 = clarity_cpu_dbs_info g"
    by (simp add: g1_def)
  have "\<forall>x. policy_max (policies g' x)
               = (if \<exists>c'\<in>set (c # cs). cg c' = Some x
                  then cpu_maxcur_freq (clarity_cpu_dbs_info g 0)
                  else policy_max (policies g x))"
  proof
    fix x
    show "policy_max (policies g' x)
               = (if \<exists>c'\<in>set (c # cs). cg c' = Some x
                  then cpu_maxcur_freq (clarity_cpu_dbs_info g 0)
                  else policy_max (policies g x))"
      using pm [rule_format, of x] a by (auto simp: i1) (auto simp: g1_def)
  qed
  with step g' infos i1 show ?case
    by simp
qed

text \<open>
  Claim C4, as stated, fails: on resume every CPU takes the ceiling kept in CPU 0's entry.
  With two policies whose ceilings are 1800000 for CPU 0 and 1200000 for CPU 1, a suspend
  followed by a resume leaves CPU 1's policy with a ceiling of 1800000, although CPU 1's
  own snapshot holds 1200000.
\<close>

theorem suspend_resume_counterexample:
  "freq_max_suspend dbs_tuners_ins \<noteq> 0
   \<and> policy_max (policies two_policies 0) = 1800000
   \<and> policy_max (policies two_policies 1) = 1200000
   \<and> map_option (\<lambda>(g, reqs). (policy_max (policies g 1),
                               cpu_maxcur_freq (clarity_cpu_dbs_info g 1)))
        (suspend_then_resume dbs_tuners_ins Some [0, 1] two_policies)
       = Some (1800000, 1200000)"
  by (simp add: suspend_then_resume_def clarity_power_suspend_def clarity_late_resume_def
        two_policies_def example_policy_def example_info_def dbs_tuners_ins_def
        cpufreq_update_policy_def Let_def)

text \<open>
  Claim C4, amended. For every configuration with \<open>freq_max_suspend\<close> nonzero, with CPU 0
  online (it is then the first CPU that \<^verbatim>\<open>for_each_online_cpu\<close> visits) and a policy for
  every online CPU, a suspend event followed immediately by a resume event sets the ceiling
  \<^verbatim>\<open>policy->max\<close> of every online CPU to the value that CPU 0's ceiling had immediately
  before the suspend: every CPU is restored from CPU 0's snapshot. So a CPU gets its own
  ceiling back exactly when that ceiling was equal to the one of CPU 0.
\<close>

theorem suspend_resume_round_trip:
  assumes "freq_max_suspend t \<noteq> 0"
    and "online = 0 # rest" and "0 \<notin> set rest"
    and "\<forall>c\<in>set online. cg c \<noteq> None"
    and "cg 0 = Some a0"
  shows "\<exists>g' reqs. suspend_then_resume t cg online g = Some (g', reqs)
           \<and> (\<forall>c\<in>set online. \<forall>a. cg c = Some a \<longrightarrow>
                 policy_max (policies g' a) = policy_max (policies g a0)
                 \<and> (policy_max (policies g' a) = policy_max (policies g a)
                      \<longleftrightarrow> policy_max (policies g a) = policy_max (policies g a0)))"
proof -
  have all: "\<forall>c\<in>set (0 # rest). cg c \<noteq> None"
    using assms(2,4) by simp
  from suspend_snapshot [OF all assms(3,5), of t "g\<lparr>suspended := True\<rparr>"] obtain g1 where
    g1: "suspend_resume True t cg (0 # rest) (g\<lparr>suspended := True\<rparr>) = Some g1"
    and snap: "cpu_maxcur_freq (clarity_cpu_dbs_info g1 0) = policy_max (policies g a0)"
    by auto
  have "clarity_power_suspend t cg online g
          = suspend_resume True t cg online (g\<lparr>suspended := True\<rparr>)"
    using assms(1) by (simp add: clarity_power_suspend_def Let_def)
  then have susp: "clarity_power_suspend t cg online g = Some g1"
    unfolding assms(2) using g1 by simp
  from resume_restores [OF all, of t "g1\<lparr>suspended := False\<rparr>"] obtain g2 where
    g2: "suspend_resume False t cg (0 # rest) (g1\<lparr>suspended := False\<rparr>) = Some g2"
    and pm: "\<forall>a. policy_max (policies g2 a)
               = (if \<exists>c\<in>set (0 # rest). cg c = Some a
                  then cpu_maxcur_freq (clarity_cpu_dbs_info (g1\<lparr>suspended := False\<rparr>) 0)
                  else policy_max (policies (g1\<lparr>suspended := False\<rparr>) a))"
    by blast
  have "clarity_late_resume t cg online g1
          = (case suspend_resume False t cg online (g1\<lparr>suspended := False\<rparr>) of
               None \<Rightarrow> None
             | Some g \<Rightarrow>
                 Some (g, map (\<lambda>c. (cur_policy (clarity_cpu_dbs_info g c), freq_awake t,
                                    CPUFREQ_RELATION_L)) online))"
    using assms(1) by (simp add: clarity_late_resume_def Let_def)
  then have res: "clarity_late_resume t cg online g1
               = Some (g2, map (\<lambda>c. (cur_policy (clarity_cpu_dbs_info g2 c), freq_awake t,
                                     CPUFREQ_RELATION_L)) online)"
    unfolding assms(2) using g2 by simp
  have "\<forall>c\<in>set online. \<forall>a. cg c = Some a \<longrightarrow>
          policy_max (policies g2 a) = policy_max (policies g a0)"
  proof (intro ballI allI impI)
    fix c a
    assume "c \<in> set online" and "cg c = Some a"
    then have "\<exists>c\<in>set (0 # rest). cg c = Some a"
      using assms(2) by auto
    with pm snap show "policy_max (policies g2 a) = policy_max (policies g a0)"
      by simp
  qed
  then have "\<forall>c\<in>set online. \<forall>a. cg c = Some a \<longrightarrow>
                 policy_max (policies g2 a) = policy_max (policies g a0)
                 \<and> (policy_max (policies g2 a) = policy_max (policies g a)
                      \<longleftrightarrow> policy_max (policies g a) = policy_max (policies g a0))"
    by auto
  moreover have "suspend_then_resume t cg online g
      = Some (g2, map (\<lambda>c. (cur_policy (clarity_cpu_dbs_info g2 c), freq_awake t,
                             CPUFREQ_RELATION_L)) online)"
    by (simp add: suspend_then_resume_def susp res)
  ultimately show ?thesis
    by blast
qed

text \<open>The two policies above: after a suspend and a resume both have CPU 0's ceiling of
  1800000.\<close>

theorem suspend_resume_round_trip_witness:
  "freq_max_suspend dbs_tuners_ins \<noteq> 0
   \<and> [0, 1] = 0 # [1 :: nat] \<and> (0 :: nat) \<notin> set [1]
   \<and> Some (0 :: nat) \<noteq> None \<and> Some (1 :: nat) \<noteq> None
   \<and> policy_max (policies two_policies 0) = 1800000
   \<and> (\<exists>g' reqs. suspend_then_resume dbs_tuners_ins Some [0, 1] two_policies = Some (g', reqs)
         \<and> policy_max (policies g' 0) = 1800000 \<and> policy_max (policies g' 1) = 1800000)"
proof -
  have a: "freq_max_suspend dbs_tuners_ins \<noteq> 0"
    by (simp add: dbs_tuners_ins_def)
  have b: "[0, 1] = 0 # [1 :: nat]" "(0 :: nat) \<notin> set [1]"
    "\<forall>c\<in>set [0, 1 :: nat]. Some c \<noteq> None" "Some (0 :: nat) = Some 0"
    by simp_all
  have c: "policy_max (policies two_policies 0) = 1800000"
    by (simp add: two_policies_def example_policy_def)
  from suspend_resume_round_trip [OF a b, of two_policies] obtain g' reqs where
    r: "suspend_then_resume dbs_tuners_ins Some [0, 1] two_policies = Some (g', reqs)"
    and m: "\<forall>c\<in>set [0, 1 :: nat]. \<forall>a. Some c = Some a \<longrightarrow>
              policy_max (policies g' a) = policy_max (policies two_policies 0)"
    by blast
  from m have "policy_max (policies g' 0) = policy_max (policies two_policies 0)"
    and "policy_max (policies g' 1) = policy_max (policies two_policies 0)"
    by simp_all
  with a b c r show ?thesis
    by simp
qed

subsection \<open>The live change of the sampling rate\<close>

text \<open>Away from the wrap-around of the jiffies counter, \<^verbatim>\<open>time_before\<close> is the order of
  the two times.\<close>

lemma sint_small:
  fixes a :: ulong
  assumes "uint a < 2147483648"
  shows "sint a = uint a"
proof -
  have "signed_take_bit 31 (uint a) = uint a"
  proof (rule signed_take_bit_int_eq_self)
    show "- (2 ^ 31) \<le> uint a"
      by (rule order_trans [OF _ uint_ge_0]) simp
    show "uint a < 2 ^ 31"
      using assms by simp
  qed
  then show ?thesis
    by (simp add: sint_uint)
qed

lemma time_before_small:
  fixes a b :: ulong
  assumes "unat a < 2 ^ 31" and "unat b < 2 ^ 31"
  shows "time_before a b \<longleftrightarrow> unat a < unat b"
proof -
  have "int (unat a) < int (2 ^ 31)" and "int (unat b) < int (2 ^ 31)"
    using assms by (simp_all only: of_nat_less_iff)
  then have ua: "uint a < 2147483648" and ub: "uint b < 2147483648"
    by simp_all
  have a0: "0 \<le> uint a" and b0: "0 \<le> uint b"
    by simp_all
  have lo: "- 2147483648 \<le> uint a - uint b"
    using a0 ub by linarith
  have hi: "uint a - uint b < 2147483648"
    using b0 ua by linarith
  have "sint (a - b) = signed_take_bit 31 (sint a - sint b)"
    by (simp add: sint_word_diff)
  also have "\<dots> = signed_take_bit 31 (uint a - uint b)"
    by (simp only: sint_small [OF ua] sint_small [OF ub])
  also have "\<dots> = uint a - uint b"
  proof (rule signed_take_bit_int_eq_self)
    show "- (2 ^ 31) \<le> uint a - uint b"
      using lo by simp
    show "uint a - uint b < 2 ^ 31"
      using hi by simp
  qed
  finally have "time_before a b \<longleftrightarrow> uint a < uint b"
    by (simp add: time_before_def)
  then show ?thesis
    by (simp add: word_less_def [symmetric] word_less_nat_alt)
qed

lemma time_before_irrefl: "\<not> time_before a a"
  by (simp add: time_before_def)

lemma requeue:
  "queue_delayed_work_on jiffies delay (cancel_delayed_work_sync w)
     = w\<lparr>work_pending := True, timer_expires := jiffies + delay\<rparr>"
  by (simp add: queue_delayed_work_on_def cancel_delayed_work_sync_def)

text \<open>What the loop over the online CPUs leaves in every entry of the per-CPU array.\<close>

lemma resample_online_result:
  "resample_online u2j jiffies cg pols nr cs infos k =
     (if (\<exists>c\<in>set cs. \<exists>a. cg c = Some a \<and> policy_cpu (pols a) = k)
           \<and> work_pending (work (infos k))
           \<and> time_before (jiffies + u2j nr) (timer_expires (work (infos k)))
      then (infos k)\<lparr>work := (work (infos k))\<lparr>work_pending := True,
                                               timer_expires := jiffies + u2j nr\<rparr>\<rparr>
      else infos k)"
proof (induction cs arbitrary: infos)
  case Nil
  show ?case by simp
next
  case (Cons c cs)
  show ?case
  proof (cases "cg c")
    case None
    then show ?thesis
      by (simp add: Cons.IH)
  next
    case (Some a)
    define k0 where "k0 = policy_cpu (pols a)"
    show ?thesis
    proof (cases "work_pending (work (infos k0))
                    \<and> time_before (jiffies + u2j nr) (timer_expires (work (infos k0)))")
      case False
      then have "resample_online u2j jiffies cg pols nr (c # cs) infos
                   = resample_online u2j jiffies cg pols nr cs infos"
        by (auto simp: Some k0_def Let_def)
      with False show ?thesis
        by (auto simp: Cons.IH Some k0_def)
    next
      case True
      define infos1 where "infos1 = infos(k0 := (infos k0)
          \<lparr>work := (work (infos k0))\<lparr>work_pending := True,
                                     timer_expires := jiffies + u2j nr\<rparr>\<rparr>)"
      from True have step: "resample_online u2j jiffies cg pols nr (c # cs) infos
                   = resample_online u2j jiffies cg pols nr cs infos1"
        by (simp add: Some k0_def [symmetric] Let_def requeue infos1_def)
      show ?thesis
      proof (cases "k = k0")
        case k: True
        have "resample_online u2j jiffies cg pols nr cs infos1 k = infos1 k"
          unfolding Cons.IH by (simp add: k infos1_def time_before_irrefl)
        moreover have "\<exists>c'\<in>set (c # cs). \<exists>a. cg c' = Some a \<and> policy_cpu (pols a) = k"
          using Some k by (auto simp: k0_def)
        ultimately show ?thesis
          unfolding step using True by (simp add: k infos1_def)
      next
        case k: False
        then have i: "infos1 k = infos k"
          by (simp add: infos1_def)
        have e: "(\<exists>c'\<in>set (c # cs). \<exists>a. cg c' = Some a \<and> policy_cpu (pols a) = k)
                \<longleftrightarrow> (\<exists>c'\<in>set cs. \<exists>a. cg c' = Some a \<and> policy_cpu (pols a) = k)"
          using Some k by (auto simp: k0_def)
        show ?thesis
          unfolding step Cons.IH i e by (rule refl)
      qed
    qed
  qed
qed

lemma dbs_check_cpu_work:
  "work (fst (dbs_check_cpu nu samples t pols infos this) k) = work (infos k)"
  by (simp add: dbs_check_cpu_eq sampled_infos_keeps check_frequency_def Let_def)

text \<open>A fire that runs with some sampling rate stored arms the next one from that rate.\<close>

lemma do_dbs_timer_next:
  assumes "u2j (sampling_rate t) \<noteq> 0" and "\<not> work_pending (work (infos this))"
  shows "\<exists>infos' req. do_dbs_timer u2j jiffies nu samples t pols infos this = Some (infos', req)
           \<and> work_pending (work (infos' this))
           \<and> timer_expires (work (infos' this))
               = jiffies + (u2j (sampling_rate t) - jiffies mod u2j (sampling_rate t))"
proof -
  obtain i1 r where c: "dbs_check_cpu nu samples t pols infos this = (i1, r)"
    by (cases "dbs_check_cpu nu samples t pols infos this") auto
  have "work (i1 this) = work (infos this)"
    using dbs_check_cpu_work [of nu samples t pols infos this this] by (simp add: c)
  with assms show ?thesis
    by (simp add: do_dbs_timer_def Let_def c queue_delayed_work_on_def)
qed

text \<open>
  Claim C9. A write stores the new sampling rate, raised to \<open>min_sampling_rate\<close> if it is
  below. For every online CPU with a policy whose owner's work is pending: if the wake time
  implied by the stored rate, now plus the rate in jiffies, is before the time the work is
  due to fire, the pending fire is cancelled and the work queued again to fire one new
  period from now; otherwise (the implied time is later or the same) the entry is left as
  it was, and the new rate counts from the next run of the timer function, which arms
  the following fire from the rate stored then. ``Before'' is \<^verbatim>\<open>time_before\<close>, which away
  from the wrap-around of the jiffies counter is the order of the two times.
\<close>

theorem live_period_change:
  assumes "update_sampling_rate u2j jiffies cg pols online msr t infos new_rate = (t', infos')"
    and "c \<in> set online" and "cg c = Some a"
    and "work_pending (work (infos (policy_cpu (pols a))))"
  shows "sampling_rate t' = max new_rate msr
       \<and> (time_before (jiffies + u2j (sampling_rate t'))
             (timer_expires (work (infos (policy_cpu (pols a))))) \<longrightarrow>
            work_pending (work (infos' (policy_cpu (pols a))))
            \<and> timer_expires (work (infos' (policy_cpu (pols a))))
                = jiffies + u2j (sampling_rate t'))
       \<and> (\<not> time_before (jiffies + u2j (sampling_rate t'))
               (timer_expires (work (infos (policy_cpu (pols a))))) \<longrightarrow>
            infos' (policy_cpu (pols a)) = infos (policy_cpu (pols a)))
       \<and> (unat jiffies + unat (u2j (sampling_rate t')) < 2 ^ 31
            \<and> unat (timer_expires (work (infos (policy_cpu (pols a))))) < 2 ^ 31 \<longrightarrow>
            (time_before (jiffies + u2j (sampling_rate t'))
               (timer_expires (work (infos (policy_cpu (pols a)))))
             \<longleftrightarrow> unat jiffies + unat (u2j (sampling_rate t'))
                   < unat (timer_expires (work (infos (policy_cpu (pols a)))))))
       \<and> (u2j (sampling_rate t') \<noteq> 0 \<and> \<not> work_pending (work (infos0 this)) \<longrightarrow>
            (\<exists>i r. do_dbs_timer u2j jiffies' nu samples t' pols' infos0 this = Some (i, r)
               \<and> work_pending (work (i this))
               \<and> timer_expires (work (i this))
                   = jiffies' + (u2j (sampling_rate t') - jiffies' mod u2j (sampling_rate t'))))"
proof -
  define k where "k = policy_cpu (pols a)"
  have t': "t' = t\<lparr>sampling_rate := max new_rate msr\<rparr>"
    and infos': "infos' = resample_online u2j jiffies cg pols (max new_rate msr) online infos"
    using assms(1) by (simp_all add: update_sampling_rate_def Let_def)
  have rate: "sampling_rate t' = max new_rate msr"
    by (simp add: t')
  have visited: "\<exists>c\<in>set online. \<exists>a. cg c = Some a \<and> policy_cpu (pols a) = k"
    using assms(2,3) by (auto simp: k_def)
  have entry: "infos' k =
     (if time_before (jiffies + u2j (sampling_rate t')) (timer_expires (work (infos k)))
      then (infos k)\<lparr>work := (work (infos k))\<lparr>work_pending := True,
                         timer_expires := jiffies + u2j (sampling_rate t')\<rparr>\<rparr>
      else infos k)"
    unfolding infos' resample_online_result rate
    using visited assms(4) by (simp add: k_def)
  have small: "unat jiffies + unat (u2j (sampling_rate t')) < 2 ^ 31
            \<and> unat (timer_expires (work (infos k))) < 2 ^ 31 \<longrightarrow>
            (time_before (jiffies + u2j (sampling_rate t')) (timer_expires (work (infos k)))
             \<longleftrightarrow> unat jiffies + unat (u2j (sampling_rate t'))
                   < unat (timer_expires (work (infos k))))"
  proof
    assume b: "unat jiffies + unat (u2j (sampling_rate t')) < 2 ^ 31
            \<and> unat (timer_expires (work (infos k))) < 2 ^ 31"
    then have "unat jiffies + unat (u2j (sampling_rate t')) < 2 ^ LENGTH(32)"
      by simp
    then have s: "unat (jiffies + u2j (sampling_rate t'))
                    = unat jiffies + unat (u2j (sampling_rate t'))"
      by (simp only: unat_add_lem)
    with b have "unat (jiffies + u2j (sampling_rate t')) < 2 ^ 31"
      by simp
    from time_before_small [OF this] b s
    show "time_before (jiffies + u2j (sampling_rate t')) (timer_expires (work (infos k)))
             \<longleftrightarrow> unat jiffies + unat (u2j (sampling_rate t'))
                   < unat (timer_expires (work (infos k)))"
      by simp
  qed
  have next_fire: "u2j (sampling_rate t') \<noteq> 0 \<and> \<not> work_pending (work (infos0 this)) \<longrightarrow>
            (\<exists>i r. do_dbs_timer u2j jiffies' nu samples t' pols' infos0 this = Some (i, r)
               \<and> work_pending (work (i this))
               \<and> timer_expires (work (i this))
                   = jiffies' + (u2j (sampling_rate t') - jiffies' mod u2j (sampling_rate t')))"
    using do_dbs_timer_next [of u2j t' infos0 this jiffies' nu samples pols'] by blast
  from rate entry small next_fire show ?thesis
    unfolding k_def by simp
qed

text \<open>The specification's scenario on the concrete system, at jiffy 1000 with the next fire
  due at jiffy 1004, 40 ms away. Writing 10000 (10 ms, one jiffy) moves the fire to jiffy
  1001; writing 50000 (five jiffies, jiffy 1005) leaves it at 1004; a run of the timer
  function at jiffy 1004 with 10000 stored arms the next fire for jiffy 1005.\<close>

theorem live_period_change_witness:
  "(0 :: nat) \<in> set [0] \<and> example_cpu_get 0 = Some 0
   \<and> work_pending (work example_info) \<and> timer_expires (work example_info) = 1004
   \<and> time_before (1000 + example_usecs_to_jiffies 10000) 1004
   \<and> timer_expires (work (snd (update_sampling_rate example_usecs_to_jiffies 1000 example_cpu_get
        (\<lambda>a. example_policy) [0] 10000 dbs_tuners_ins (\<lambda>c. example_info) 10000) 0)) = 1001
   \<and> work_pending (work (snd (update_sampling_rate example_usecs_to_jiffies 1000 example_cpu_get
        (\<lambda>a. example_policy) [0] 10000 dbs_tuners_ins (\<lambda>c. example_info) 10000) 0))
   \<and> \<not> time_before (1000 + example_usecs_to_jiffies 50000) 1004
   \<and> snd (update_sampling_rate example_usecs_to_jiffies 1000 example_cpu_get
        (\<lambda>a. example_policy) [0] 10000 dbs_tuners_ins (\<lambda>c. example_info) 50000) 0
       = example_info
   \<and> \<not> work_pending (work running_info)
   \<and> (\<exists>i r. do_dbs_timer example_usecs_to_jiffies 1004 example_nice_usecs (example_sample 50)
          (fst (update_sampling_rate example_usecs_to_jiffies 1000 example_cpu_get
             (\<lambda>a. example_policy) [0] 10000 dbs_tuners_ins (\<lambda>c. example_info) 10000))
          (\<lambda>a. example_policy) (\<lambda>c. running_info) 0 = Some (i, r)
        \<and> work_pending (work (i 0)) \<and> timer_expires (work (i 0)) = 1005)"
proof -
  have a: "(0 :: nat) \<in> set [0]" "example_cpu_get 0 = Some 0"
    by (simp_all add: example_cpu_get_def)
  have pc: "policy_cpu ((\<lambda>a. example_policy) 0) = 0"
    by (simp add: example_policy_def)
  have w: "work_pending (work example_info)" "timer_expires (work example_info) = 1004"
    "\<not> work_pending (work running_info)"
    by (simp_all add: example_info_def running_info_def)
  have p: "work_pending (work ((\<lambda>c. example_info) (policy_cpu ((\<lambda>a. example_policy) 0))))"
    by (simp add: w)
  have j: "example_usecs_to_jiffies 10000 = 1" "example_usecs_to_jiffies 50000 = 5"
    by (simp_all add: example_usecs_to_jiffies_def)
  have tb: "time_before (1000 + example_usecs_to_jiffies 10000) 1004"
    "\<not> time_before (1000 + example_usecs_to_jiffies 50000) 1004"
    by (simp_all add: j time_before_def)
  note short = live_period_change [where pols = "\<lambda>a. example_policy"
      and infos = "\<lambda>c. example_info" and new_rate = 10000 and msr = 10000
      and t = dbs_tuners_ins and jiffies = 1000 and u2j = example_usecs_to_jiffies
      and online = "[0]" and cg = example_cpu_get and infos0 = "\<lambda>c. running_info"
      and this = 0 and jiffies' = 1004 and nu = example_nice_usecs
      and samples = "example_sample 50" and pols' = "\<lambda>a. example_policy",
      OF surjective_pairing a p]
  note long = live_period_change [where pols = "\<lambda>a. example_policy"
      and infos = "\<lambda>c. example_info" and new_rate = 50000 and msr = 10000
      and t = dbs_tuners_ins and jiffies = 1000 and u2j = example_usecs_to_jiffies
      and online = "[0]" and cg = example_cpu_get, OF surjective_pairing a p]
  have r1: "sampling_rate (fst (update_sampling_rate example_usecs_to_jiffies 1000
        example_cpu_get (\<lambda>a. example_policy) [0] 10000 dbs_tuners_ins (\<lambda>c. example_info) 10000))
      = 10000"
    using short by simp
  have r5: "sampling_rate (fst (update_sampling_rate example_usecs_to_jiffies 1000
        example_cpu_get (\<lambda>a. example_policy) [0] 10000 dbs_tuners_ins (\<lambda>c. example_info) 50000))
      = 50000"
    using long by simp
  have moved: "work_pending (work (snd (update_sampling_rate example_usecs_to_jiffies 1000
        example_cpu_get (\<lambda>a. example_policy) [0] 10000 dbs_tuners_ins (\<lambda>c. example_info) 10000)
        0))
     \<and> timer_expires (work (snd (update_sampling_rate example_usecs_to_jiffies 1000
        example_cpu_get (\<lambda>a. example_policy) [0] 10000 dbs_tuners_ins (\<lambda>c. example_info) 10000)
        0)) = 1001"
    using short tb(1) by (simp add: r1 pc w j)
  have kept: "snd (update_sampling_rate example_usecs_to_jiffies 1000 example_cpu_get
        (\<lambda>a. example_policy) [0] 10000 dbs_tuners_ins (\<lambda>c. example_info) 50000) 0
       = example_info"
    using long tb(2) by (simp add: r5 pc w j)
  have armed: "\<exists>i r. do_dbs_timer example_usecs_to_jiffies 1004 example_nice_usecs
          (example_sample 50)
          (fst (update_sampling_rate example_usecs_to_jiffies 1000 example_cpu_get
             (\<lambda>a. example_policy) [0] 10000 dbs_tuners_ins (\<lambda>c. example_info) 10000))
          (\<lambda>a. example_policy) (\<lambda>c. running_info) 0 = Some (i, r)
        \<and> work_pending (work (i 0)) \<and> timer_expires (work (i 0)) = 1005"
    using short w(3) by (simp add: r1 j)
  from a w tb moved kept armed show ?thesis
    by blast
qed

end
